theory Spec2Isabelle
  imports Complex_Main "HOL-Library.Log_Nat"
begin

section \<open>Python values, errors and the backend state\<close>

text \<open>
  The module \<open>keras_cv/models/mobilenet_v2.py\<close> defines three builders, \<open>CorrectPad\<close>,
  \<open>Depth\<close> and \<open>InvertedResBlock\<close>. Each one returns a nested function \<open>apply\<close>.
  A builder is modelled by a function that returns the cells its \<open>apply\<close> closes over,
  and \<open>apply\<close> by a second function that takes those cells and the argument.

  Numbers: Python's unbounded \<open>int\<close> is \<open>int\<close>. A Python \<open>float\<close> is an IEEE 754
  binary64 value: a finite double, an infinity or a NaN. A number that may be either
  (the target of \<open>Depth\<close>, \<open>alpha\<close>) is a \<open>pynum\<close>. \<open>min_value\<close>, \<open>divisor\<close> and \<open>filters\<close>
  are integers. Every exception the source can raise is a value of \<open>py_error\<close>.
\<close>

datatype py_error =
    UnboundLocalError
  | TypeError
  | IndexError
  | ZeroDivisionError
  | OverflowError
  | ValueError
  | BackendError string

subsection \<open>Floats\<close>

text \<open>
  \<open>Finite q\<close> is the double whose value is the real \<open>q\<close>. The two zeros are not told
  apart: no operation of the module distinguishes them.
\<close>

datatype pyfloat = Finite real | PosInf | NegInf | NaN

datatype pynum = PInt int | PFloat pyfloat

text \<open>Rounding a real to the nearest integer, a tie to the even one.\<close>

definition round_half_even :: "real \<Rightarrow> int" where
  "round_half_even x =
     (let f = \<lfloor>x\<rfloor>; d = x - of_int f
      in if d < 1 / 2 then f else if 1 / 2 < d then f + 1 else if even f then f else f + 1)"

text \<open>For \<open>q > 0\<close>, the exponent \<open>e\<close> with \<open>2 ^ e \<le> q < 2 ^ (e + 1)\<close>.\<close>

definition binade :: "real \<Rightarrow> int" where
  "binade q = (if 1 \<le> q then bitlen \<lfloor>q\<rfloor> - 1 else - bitlen (\<lceil>1 / q\<rceil> - 1))"

text \<open>The exponent of a double near \<open>q\<close>: that of the smallest normal double at least.\<close>

definition double_exponent :: "real \<Rightarrow> int" where
  "double_exponent q = max (binade \<bar>q\<bar>) (- 1022)"

text \<open>
  The spacing of the doubles around \<open>q\<close>: 53 significant bits, and the fixed spacing
  \<open>2 ^ (-1074)\<close> of the subnormal range below \<open>2 ^ (-1022)\<close>.
\<close>

definition ulp :: "real \<Rightarrow> real" where
  "ulp q = 2 powi (double_exponent q - 52)"

definition nearest_double :: "real \<Rightarrow> real" where
  "nearest_double q = of_int (round_half_even (q / ulp q)) * ulp q"

text \<open>
  The result of a float operation whose exact value is \<open>q\<close>: round to nearest, ties to
  even; a rounded magnitude of \<open>2 ^ 1024\<close> or more is an infinity.
\<close>

definition double_round :: "real \<Rightarrow> pyfloat" where
  "double_round q =
     (if q = 0 then Finite 0
      else let r = nearest_double q
           in if 2 powi 1024 \<le> \<bar>r\<bar> then (if 0 < q then PosInf else NegInf) else Finite r)"

text \<open>\<open>a + b\<close> and \<open>a * b\<close> on floats. Neither raises; an overflow gives an infinity.\<close>

fun float_add :: "pyfloat \<Rightarrow> pyfloat \<Rightarrow> pyfloat" where
  "float_add (Finite a) (Finite b) = double_round (a + b)"
| "float_add (Finite a) PosInf = PosInf"
| "float_add (Finite a) NegInf = NegInf"
| "float_add PosInf (Finite b) = PosInf"
| "float_add NegInf (Finite b) = NegInf"
| "float_add PosInf PosInf = PosInf"
| "float_add NegInf NegInf = NegInf"
| "float_add PosInf NegInf = NaN"
| "float_add NegInf PosInf = NaN"
| "float_add NaN b = NaN"
| "float_add (Finite a) NaN = NaN"
| "float_add PosInf NaN = NaN"
| "float_add NegInf NaN = NaN"

fun float_mul :: "pyfloat \<Rightarrow> pyfloat \<Rightarrow> pyfloat" where
  "float_mul (Finite a) (Finite b) = double_round (a * b)"
| "float_mul (Finite a) PosInf = (if a = 0 then NaN else if 0 < a then PosInf else NegInf)"
| "float_mul (Finite a) NegInf = (if a = 0 then NaN else if 0 < a then NegInf else PosInf)"
| "float_mul PosInf (Finite b) = (if b = 0 then NaN else if 0 < b then PosInf else NegInf)"
| "float_mul NegInf (Finite b) = (if b = 0 then NaN else if 0 < b then NegInf else PosInf)"
| "float_mul PosInf PosInf = PosInf"
| "float_mul NegInf NegInf = PosInf"
| "float_mul PosInf NegInf = NegInf"
| "float_mul NegInf PosInf = NegInf"
| "float_mul NaN b = NaN"
| "float_mul (Finite a) NaN = NaN"
| "float_mul PosInf NaN = NaN"
| "float_mul NegInf NaN = NaN"

text \<open>
  An \<open>int\<close> operand of a float operation is converted first; the conversion rounds, and
  raises \<open>OverflowError\<close> when the integer is too large for a float.
\<close>

definition float_of_int :: "int \<Rightarrow> py_error + pyfloat" where
  "float_of_int n =
     (case double_round (of_int n) of Finite r \<Rightarrow> Inr (Finite r) | _ \<Rightarrow> Inl OverflowError)"

definition as_float :: "pynum \<Rightarrow> py_error + pyfloat" where
  "as_float x = (case x of PInt n \<Rightarrow> float_of_int n | PFloat f \<Rightarrow> Inr f)"

text \<open>\<open>a / b\<close> on two ints: the quotient, correctly rounded.\<close>

definition int_truediv :: "int \<Rightarrow> int \<Rightarrow> py_error + pyfloat" where
  "int_truediv a b =
     (if b = 0 then Inl ZeroDivisionError
      else case double_round (of_int a / of_int b) of
             Finite r \<Rightarrow> Inr (Finite r)
           | _ \<Rightarrow> Inl OverflowError)"

text \<open>\<open>x + h\<close> and \<open>c * x\<close> for a number \<open>x\<close> and floats \<open>h\<close>, \<open>c\<close>; \<open>n * x\<close> for an int \<open>n\<close>.\<close>

definition bindE :: "py_error + 'a \<Rightarrow> ('a \<Rightarrow> py_error + 'b) \<Rightarrow> py_error + 'b" where
  "bindE r f = (case r of Inl e \<Rightarrow> Inl e | Inr a \<Rightarrow> f a)"

definition num_add_float :: "pynum \<Rightarrow> pyfloat \<Rightarrow> py_error + pyfloat" where
  "num_add_float x h = bindE (as_float x) (\<lambda>a. Inr (float_add a h))"

definition float_mul_num :: "pyfloat \<Rightarrow> pynum \<Rightarrow> py_error + pyfloat" where
  "float_mul_num c x = bindE (as_float x) (\<lambda>a. Inr (float_mul c a))"

definition int_mul_num :: "int \<Rightarrow> pynum \<Rightarrow> py_error + pynum" where
  "int_mul_num n x =
     (case x of
        PInt k \<Rightarrow> Inr (PInt (n * k))
      | PFloat f \<Rightarrow> bindE (float_of_int n) (\<lambda>a. Inr (PFloat (float_mul a f))))"

text \<open>
  \<open>int(x)\<close>: truncation toward zero; \<open>OverflowError\<close> on an infinity and \<open>ValueError\<close> on
  a NaN.
\<close>

definition trunc :: "real \<Rightarrow> int" where
  "trunc x = (if 0 \<le> x then \<lfloor>x\<rfloor> else \<lceil>x\<rceil>)"

definition py_int :: "pynum \<Rightarrow> py_error + int" where
  "py_int x =
     (case x of
        PInt n \<Rightarrow> Inr n
      | PFloat (Finite q) \<Rightarrow> Inr (trunc q)
      | PFloat PosInf \<Rightarrow> Inl OverflowError
      | PFloat NegInf \<Rightarrow> Inl OverflowError
      | PFloat NaN \<Rightarrow> Inl ValueError)"

text \<open>\<open>n < t\<close> for an int \<open>n\<close> and a float \<open>t\<close>: Python compares the exact values.\<close>

definition int_lt_float :: "int \<Rightarrow> pyfloat \<Rightarrow> bool" where
  "int_lt_float n t =
     (case t of Finite q \<Rightarrow> of_int n < q | PosInf \<Rightarrow> True | NegInf \<Rightarrow> False | NaN \<Rightarrow> False)"

text \<open>The literal \<open>0.9\<close>: the double nearest to 9/10.\<close>

definition literal_0_9 :: pyfloat where
  "literal_0_9 = double_round (9 / 10)"

text \<open>The exact value of a number; an infinity and a NaN have none.\<close>

fun num_value :: "pynum \<Rightarrow> real option" where
  "num_value (PInt n) = Some (of_int n)"
| "num_value (PFloat (Finite q)) = Some q"
| "num_value (PFloat PosInf) = None"
| "num_value (PFloat NegInf) = None"
| "num_value (PFloat NaN) = None"

subsection \<open>Function objects, layers and the backend\<close>

text \<open>
  The function object returned by \<open>Depth\<close>: its closure cells are the two free variables
  of \<open>Depth.apply\<close>, \<open>divisor\<close> and \<open>min_value\<close> (already defaulted, lines 129-130).
  \<open>name\<close> is no free variable of \<open>apply\<close> and so is no cell.
\<close>

record depth_fn =
  cell_divisor :: int
  cell_min_value :: int

text \<open>The values that reach a \<open>filters\<close> argument or the comparison of line 225.\<close>

datatype pyval = IntV int | NoneV | FunV depth_fn

text \<open>
  Python's \<open>==\<close> on these values. An \<open>int\<close> (or \<open>None\<close>) never equals a function object;
  two function objects are compared by identity, for which equal cells stand in here
  (the source never compares two functions).
\<close>

fun py_eq :: "pyval \<Rightarrow> pyval \<Rightarrow> bool" where
  "py_eq (IntV a) (IntV b) = (a = b)"
| "py_eq NoneV NoneV = True"
| "py_eq (FunV f) (FunV g) = (f = g)"
| "py_eq (IntV a) NoneV = False"
| "py_eq (IntV a) (FunV g) = False"
| "py_eq NoneV (IntV b) = False"
| "py_eq NoneV (FunV g) = False"
| "py_eq (FunV f) (IntV b) = False"
| "py_eq (FunV f) NoneV = False"

datatype padding_mode = Same | Valid

text \<open>
  The layer objects of \<open>tensorflow.keras.layers\<close> that the module constructs, each with
  the arguments the source passes, in the source's order.
\<close>

datatype layer =
    BatchNormalization int real real string
      \<comment> \<open>axis, epsilon, momentum, name\<close>
  | ReLU real string
      \<comment> \<open>max_value, name\<close>
  | DepthwiseConv2D int int "string option" bool padding_mode string
      \<comment> \<open>kernel_size, strides, activation, use_bias, padding, name\<close>
  | Conv2D pyval int padding_mode bool "string option" string
      \<comment> \<open>filters, kernel_size, padding, use_bias, activation, name\<close>
  | ZeroPadding2D "(int \<times> int) \<times> (int \<times> int)" string
      \<comment> \<open>padding, name\<close>
  | Add string
      \<comment> \<open>name\<close>

fun layer_name :: "layer \<Rightarrow> string" where
  "layer_name (BatchNormalization _ _ _ n) = n"
| "layer_name (ReLU _ n) = n"
| "layer_name (DepthwiseConv2D _ _ _ _ _ n) = n"
| "layer_name (Conv2D _ _ _ _ _ n) = n"
| "layer_name (ZeroPadding2D _ n) = n"
| "layer_name (Add n) = n"

text \<open>
  Modelled from the spec: the backend's layer-naming/uid-allocation service
  (\<open>backend.get_uid\<close>) is process-wide mutable state, one counter per prefix. The state
  also keeps the list of the layer objects constructed so far, oldest first.
\<close>

record backend_state =
  uids :: "string \<Rightarrow> nat"
  allocated :: "layer list"

text \<open>
  The numeric backend itself is a parameter: the static shape of a tensor (\<open>None\<close> for an
  unknown dimension), whether a layer constructor rejects its arguments (with the
  backend's message), and the result of calling a layer on tensors.
\<close>

record 't backend =
  int_shape :: "'t \<Rightarrow> int option list"
  construct :: "layer \<Rightarrow> string option"
  call :: "layer \<Rightarrow> 't list \<Rightarrow> string + 't"

subsection \<open>Sequencing with exceptions and state\<close>

type_synonym 'a py = "backend_state \<Rightarrow> (py_error + 'a) \<times> backend_state"

definition ret :: "'a \<Rightarrow> 'a py" where
  "ret x = (\<lambda>s. (Inr x, s))"

definition bind :: "'a py \<Rightarrow> ('a \<Rightarrow> 'b py) \<Rightarrow> 'b py" where
  "bind m f = (\<lambda>s. case m s of (Inl e, s') \<Rightarrow> (Inl e, s') | (Inr a, s') \<Rightarrow> f a s')"

text \<open>
  Reading a local variable: \<open>None\<close> is a local that no assignment has bound yet, and
  reading it raises. A name that a nested function assigns anywhere in its body is a local
  of that function throughout the body, whatever the enclosing function binds under the
  same name.
\<close>

definition local_var :: "'a option \<Rightarrow> py_error + 'a" where
  "local_var v = (case v of None \<Rightarrow> Inl UnboundLocalError | Some a \<Rightarrow> Inr a)"

text \<open>A computation that does not touch the backend state.\<close>

definition lift :: "py_error + 'a \<Rightarrow> 'a py" where
  "lift r = (\<lambda>s. (r, s))"

text \<open>\<open>xs[i]\<close> for \<open>i \<ge> 0\<close> and \<open>xs[-1]\<close> on a tuple.\<close>

definition py_index :: "'a list \<Rightarrow> nat \<Rightarrow> py_error + 'a" where
  "py_index xs i = (if i < length xs then Inr (xs ! i) else Inl IndexError)"

definition py_last :: "'a list \<Rightarrow> py_error + 'a" where
  "py_last xs = (if xs = [] then Inl IndexError else Inr (last xs))"

definition get_uid :: "string \<Rightarrow> nat py" where
  "get_uid p = (\<lambda>s. let n = uids s p + 1 in (Inr n, s\<lparr>uids := (uids s)(p := n)\<rparr>))"

text \<open>Constructing a layer: the backend may reject it; otherwise the object exists.\<close>

definition new_layer :: "'t backend \<Rightarrow> layer \<Rightarrow> layer py" where
  "new_layer B l =
     (\<lambda>s. case construct B l of
             Some msg \<Rightarrow> (Inl (BackendError msg), s)
           | None \<Rightarrow> (Inr l, s\<lparr>allocated := allocated s @ [l]\<rparr>))"

definition call_layer :: "'t backend \<Rightarrow> layer \<Rightarrow> 't list \<Rightarrow> 't py" where
  "call_layer B l xs =
     (\<lambda>s. case call B l xs of
             Inl msg \<Rightarrow> (Inl (BackendError msg), s)
           | Inr t \<Rightarrow> (Inr t, s))"

subsection \<open>Decimal rendering, for \<open>str.format\<close> and f-strings\<close>

definition digit_char :: "nat \<Rightarrow> char" where
  "digit_char d = char_of (48 + d)"

fun str_nat :: "nat \<Rightarrow> string" where
  "str_nat n = (if n < 10 then [digit_char n] else str_nat (n div 10) @ [digit_char (n mod 10)])"

declare str_nat.simps [simp del]

definition str_int :: "int \<Rightarrow> string" where
  "str_int i = (if i < 0 then CHR ''-'' # str_nat (nat (- i)) else str_nat (nat i))"

section \<open>Depth (lines 114-140)\<close>

text \<open>
  \<^verbatim>\<open>
  def Depth(divisor=8, min_value=None, name=None):
      if name is None:
          name = f"depth_{backend.get_uid('depth')}"
      if min_value is None:
          min_value = divisor
      def apply(x): ...
      return apply
  \<close>
\<close>

definition Depth :: "int \<Rightarrow> int option \<Rightarrow> string option \<Rightarrow> depth_fn py" where
  "Depth divisor min_value name =
     bind (case name of
             None \<Rightarrow> bind (get_uid ''depth'') (\<lambda>u. ret (''depth_'' @ str_nat u))
           | Some n \<Rightarrow> ret n)
       (\<lambda>name.
          let min_value = (case min_value of None \<Rightarrow> divisor | Some m \<Rightarrow> m)
          in ret \<lparr>cell_divisor = divisor, cell_min_value = min_value\<rparr>)"

text \<open>
  Line 133: \<open>new_x = max(min_value, int(x + divisor / 2) // divisor * divisor)\<close>.
  \<open>divisor / 2\<close> is a float; \<open>x + divisor / 2\<close> is a float sum, rounded; \<open>int\<close> truncates it;
  \<open>//\<close> on integers is floor division and raises on a zero divisor.
\<close>

definition Depth_candidate :: "depth_fn \<Rightarrow> pynum \<Rightarrow> py_error + int" where
  "Depth_candidate f x =
     bindE (int_truediv (cell_divisor f) 2) (\<lambda>half.
     bindE (num_add_float x half) (\<lambda>s.
     bindE (py_int (PFloat s)) (\<lambda>n.
     if cell_divisor f = 0 then Inl ZeroDivisionError
     else Inr (max (cell_min_value f) (n div cell_divisor f * cell_divisor f)))))"

text \<open>
  Lines 132-138:
  \<^verbatim>\<open>
  def apply(x):
      new_x = max(min_value, int(x + divisor / 2) // divisor * divisor)
      # Make sure that round down does not go down by more than 10%.
      if new_x < 0.9 * x:
          new_x += divisor
      return new_x
  \<close>
  \<open>0.9 * x\<close> is a float product, rounded.
\<close>

definition Depth_apply :: "depth_fn \<Rightarrow> pynum \<Rightarrow> py_error + int" where
  "Depth_apply f x =
     bindE (Depth_candidate f x) (\<lambda>new_x.
     bindE (float_mul_num literal_0_9 x) (\<lambda>t.
     if int_lt_float new_x t then Inr (new_x + cell_divisor f) else Inr new_x))"

section \<open>CorrectPad (lines 80-110)\<close>

text \<open>\<open>kernel_size\<close>: an integer or a tuple/list of 2 integers.\<close>

datatype kernel = KInt int | KPair int int

text \<open>
  The function object returned by \<open>CorrectPad\<close>. \<open>CorrectPad.apply\<close> assigns
  \<open>kernel_size\<close> (line 98), so inside \<open>apply\<close> that name is a local variable and the
  parameter \<open>kernel_size\<close> of \<open>CorrectPad\<close> is no free variable of \<open>apply\<close>: the
  function object has no closure cell.
\<close>

datatype correct_pad_fn = CorrectPadFn

text \<open>
  \<^verbatim>\<open>
  def CorrectPad(kernel_size, name=None):
      if name is None:
          name = f"correct_pad_{backend.get_uid('correct_pad')}"
      def apply(x): ...
      return apply
  \<close>
\<close>

definition CorrectPad :: "kernel \<Rightarrow> string option \<Rightarrow> correct_pad_fn py" where
  "CorrectPad kernel_size name =
     bind (case name of
             None \<Rightarrow> bind (get_uid ''correct_pad'') (\<lambda>u. ret (''correct_pad_'' @ str_nat u))
           | Some n \<Rightarrow> ret n)
       (\<lambda>name. ret CorrectPadFn)"

text \<open>
  Lines 93-108:
  \<^verbatim>\<open>
  def apply(x):
      img_dim = 1
      input_size = backend.int_shape(x)[img_dim : (img_dim + 2)]
      if isinstance(kernel_size, int):
          kernel_size = (kernel_size, kernel_size)
      if input_size[0] is None:
          adjust = (1, 1)
      else:
          adjust = (1 - input_size[0] % 2, 1 - input_size[1] % 2)
      correct = (kernel_size[0] // 2, kernel_size[1] // 2)
      return ((correct[0] - adjust[0], correct[0]),
              (correct[1] - adjust[1], correct[1]))
  \<close>
  The local \<open>kernel_size\<close> is unbound when line 97 reads it.
\<close>

definition CorrectPad_apply ::
  "'t backend \<Rightarrow> correct_pad_fn \<Rightarrow> 't \<Rightarrow> py_error + ((int \<times> int) \<times> (int \<times> int))" where
  "CorrectPad_apply B f x =
     (let img_dim = 1;
          input_size = take 2 (drop img_dim (int_shape B x));
          kernel_size = (None :: kernel option)
      in bindE (local_var kernel_size) (\<lambda>k.
         let kernel_size = (case k of KInt n \<Rightarrow> (n, n) | KPair a b \<Rightarrow> (a, b))
         in bindE (py_index input_size 0) (\<lambda>d0.
            bindE (case d0 of
                     None \<Rightarrow> Inr (1, 1)
                   | Some n0 \<Rightarrow>
                       bindE (py_index input_size 1) (\<lambda>d1.
                         case d1 of
                           None \<Rightarrow> Inl TypeError
                         | Some n1 \<Rightarrow> Inr (1 - n0 mod 2, 1 - n1 mod 2)))
              (\<lambda>adjust.
                 let correct = (fst kernel_size div 2, snd kernel_size div 2)
                 in Inr ((fst correct - fst adjust, fst correct),
                         (snd correct - snd adjust, snd correct))))))"

section \<open>InvertedResBlock (lines 142-230)\<close>

text \<open>
  The function object returned by \<open>InvertedResBlock\<close>: one cell for each free variable
  of \<open>InvertedResBlock.apply\<close>. \<open>prefix\<close> is assigned inside \<open>apply\<close> (line 210), so it is
  a local of \<open>apply\<close> and no cell. \<open>pointwise_filters\<close> holds what line 151 bound:
  the result of \<open>Depth(pointwise_conv_filters, 8)\<close>, a function object.
\<close>

record block_fn =
  cell_block_id :: int
  cell_expansion :: int
  cell_stride :: int
  cell_batch_norm_1 :: layer
  cell_activation_1 :: layer
  cell_correct_pad :: correct_pad_fn
  cell_depthwise_conv2d_1 :: layer
  cell_batch_norm_2 :: layer
  cell_activation_2 :: layer
  cell_conv2d_1 :: layer
  cell_batch_norm_3 :: layer
  cell_pointwise_filters :: depth_fn
  cell_add :: layer

text \<open>
  Lines 142-190. \<open>int(filters * alpha)\<close> (line 148) is the builder's own arithmetic: the
  product of an int and a float is a float product, and \<open>int\<close> raises on an infinity or a
  NaN. The two positional arguments of \<open>Depth(pointwise_conv_filters, 8)\<close> bind
  \<open>divisor\<close> and \<open>min_value\<close>, in that order; the returned function is not called.
\<close>

definition InvertedResBlock ::
  "'t backend \<Rightarrow> int \<Rightarrow> int \<Rightarrow> pynum \<Rightarrow> int \<Rightarrow> int \<Rightarrow> string option \<Rightarrow> block_fn py" where
  "InvertedResBlock B expansion stride alpha filters block_id name =
     bind (case name of
             None \<Rightarrow> bind (get_uid ''inverted_res_block'')
                       (\<lambda>u. ret (''inverted_res_block_'' @ str_nat u))
           | Some n \<Rightarrow> ret n)
       (\<lambda>name.
     let prefix = ''block_'' @ str_int block_id @ ''_''
     in
     bind (lift (bindE (int_mul_num filters alpha) py_int)) (\<lambda>pointwise_conv_filters.
     bind (Depth pointwise_conv_filters (Some 8) None) (\<lambda>pointwise_filters.
     bind (new_layer B (BatchNormalization (- 1) (1 / 1000) (999 / 1000) (prefix @ ''expand_BN'')))
       (\<lambda>batch_norm_1.
     bind (CorrectPad (KInt 3) None) (\<lambda>correct_pad.
     bind (new_layer B (ReLU 6 (prefix @ ''expand_relu''))) (\<lambda>activation_1.
     bind (new_layer B (DepthwiseConv2D 3 stride None False
                          (if stride = 1 then Same else Valid) (prefix @ ''depthwise'')))
       (\<lambda>depthwise_conv2d_1.
     bind (new_layer B (BatchNormalization (- 1) (1 / 1000) (999 / 1000) (prefix @ ''depthwise_BN'')))
       (\<lambda>batch_norm_2.
     bind (new_layer B (ReLU 6 (prefix @ ''depthwise_relu''))) (\<lambda>activation_2.
     bind (new_layer B (Conv2D (FunV pointwise_filters) 1 Same False None (prefix @ ''project'')))
       (\<lambda>conv2d_1.
     bind (new_layer B (BatchNormalization (- 1) (1 / 1000) (999 / 1000) (prefix @ ''project_BN'')))
       (\<lambda>batch_norm_3.
     bind (new_layer B (Add (prefix @ ''add''))) (\<lambda>add.
     ret \<lparr>cell_block_id = block_id, cell_expansion = expansion, cell_stride = stride,
          cell_batch_norm_1 = batch_norm_1, cell_activation_1 = activation_1,
          cell_correct_pad = correct_pad, cell_depthwise_conv2d_1 = depthwise_conv2d_1,
          cell_batch_norm_2 = batch_norm_2, cell_activation_2 = activation_2,
          cell_conv2d_1 = conv2d_1, cell_batch_norm_3 = batch_norm_3,
          cell_pointwise_filters = pointwise_filters, cell_add = add\<rparr>))))))))))))"

text \<open>
  Lines 193-208, the \<open>if block_id:\<close> statement. The arguments of \<open>layers.Conv2D\<close> are
  evaluated before the call, left to right: \<open>expansion * in_channels\<close> (a \<open>TypeError\<close> when
  the channel dimension is \<open>None\<close>), then \<open>prefix + "expand"\<close>, which reads the local
  \<open>prefix\<close>. The branch returns the new \<open>x\<close> and the binding of the local \<open>prefix\<close>.
\<close>

definition InvertedResBlock_expand ::
  "'t backend \<Rightarrow> block_fn \<Rightarrow> int option \<Rightarrow> 't \<Rightarrow> ('t \<times> string option) py" where
  "InvertedResBlock_expand B f in_channels x =
     (let prefix = (None :: string option) in
      if cell_block_id f \<noteq> 0 then
        bind (lift (case in_channels of
                      None \<Rightarrow> Inl TypeError
                    | Some c \<Rightarrow> Inr (cell_expansion f * c))) (\<lambda>n.
        bind (lift (local_var prefix)) (\<lambda>p.
        bind (new_layer B (Conv2D (IntV n) 1 Same False None (p @ ''expand''))) (\<lambda>expand.
        bind (call_layer B expand [x]) (\<lambda>x.
        bind (call_layer B (cell_batch_norm_1 f) [x]) (\<lambda>x.
        bind (call_layer B (cell_activation_1 f) [x]) (\<lambda>x.
        ret (x, prefix)))))))
      else ret (x, Some ''expanded_conv_''))"

text \<open>
  Lines 193-223: everything before the residual decision. The result is \<open>in_channels\<close>
  and the projected output \<open>x\<close> (after \<open>batch_norm_3\<close>).
\<close>

definition InvertedResBlock_project ::
  "'t backend \<Rightarrow> block_fn \<Rightarrow> 't \<Rightarrow> (int option \<times> 't) py" where
  "InvertedResBlock_project B f inputs =
     bind (lift (py_last (int_shape B inputs))) (\<lambda>in_channels.
     bind (InvertedResBlock_expand B f in_channels inputs) (\<lambda>(x, prefix).
     bind (if cell_stride f = 2 then
             bind (lift (CorrectPad_apply B (cell_correct_pad f) x)) (\<lambda>padding.
             bind (lift (local_var prefix)) (\<lambda>p.
             bind (new_layer B (ZeroPadding2D padding (p @ ''pad''))) (\<lambda>pad.
             call_layer B pad [x])))
           else ret x) (\<lambda>x.
     bind (call_layer B (cell_depthwise_conv2d_1 f) [x]) (\<lambda>x.
     bind (call_layer B (cell_batch_norm_2 f) [x]) (\<lambda>x.
     bind (call_layer B (cell_activation_2 f) [x]) (\<lambda>x.
     bind (call_layer B (cell_conv2d_1 f) [x]) (\<lambda>x.
     bind (call_layer B (cell_batch_norm_3 f) [x]) (\<lambda>x.
     ret (in_channels, x)))))))))"

text \<open>
  Lines 192-228, \<open>apply(inputs)\<close>; its last statements are
  \<^verbatim>\<open>
  if in_channels == pointwise_filters and stride == 1:
      return add([inputs, x])
  return x
  \<close>
\<close>

definition InvertedResBlock_apply :: "'t backend \<Rightarrow> block_fn \<Rightarrow> 't \<Rightarrow> 't py" where
  "InvertedResBlock_apply B f inputs =
     bind (InvertedResBlock_project B f inputs) (\<lambda>(in_channels, x).
       if py_eq (case in_channels of None \<Rightarrow> NoneV | Some c \<Rightarrow> IntV c)
                (FunV (cell_pointwise_filters f))
          \<and> cell_stride f = 1
       then call_layer B (cell_add f) [inputs, x]
       else ret x)"

section \<open>A recording backend\<close>

text \<open>
  To run the block on concrete inputs, a backend that accepts every layer and returns,
  for a call, the term naming the layer and its arguments. It does no shape inference:
  every dimension of a layer's output is unknown.
\<close>

datatype sym = Feature "int option list" | Out layer "sym list"

definition recording :: "sym backend" where
  "recording =
     \<lparr>int_shape = (\<lambda>t. case t of Feature sh \<Rightarrow> sh | Out l xs \<Rightarrow> [None, None, None, None]),
      construct = (\<lambda>l. None),
      call = (\<lambda>l xs. Inr (Out l xs))\<rparr>"

text \<open>A backend that accepts only strides 1 and 2 for a depthwise convolution.\<close>

definition strict :: "sym backend" where
  "strict =
     recording\<lparr>construct :=
       (\<lambda>l. case l of
               DepthwiseConv2D k st a b p n \<Rightarrow>
                 if st = 1 \<or> st = 2 then None else Some ''invalid strides''
             | _ \<Rightarrow> None)\<rparr>"

definition fresh :: backend_state where
  "fresh = \<lparr>uids = (\<lambda>p. 0), allocated = []\<rparr>"

section \<open>Building and applying in one step\<close>

text \<open>
  \<open>Depth(divisor, min_value, name)(x)\<close>, \<open>CorrectPad(kernel_size, name)(x)\<close> and
  \<open>InvertedResBlock(expansion, stride, alpha, filters, block_id, name)(inputs)\<close>, started in
  backend state \<open>s\<close>. The spec's \<open>round_channels(target, divisor, min_value)\<close> is
  \<open>Depth(divisor, min_value)(target)\<close>.
\<close>

definition Depth_call ::
  "int \<Rightarrow> int option \<Rightarrow> string option \<Rightarrow> backend_state \<Rightarrow> pynum \<Rightarrow> py_error + int" where
  "Depth_call divisor min_value name s x =
     bindE (fst (Depth divisor min_value name s)) (\<lambda>apply. Depth_apply apply x)"

text \<open>The value of \<open>new_x\<close> after line 133, before the correction of lines 136-137.\<close>

definition Depth_call_candidate ::
  "int \<Rightarrow> int option \<Rightarrow> string option \<Rightarrow> backend_state \<Rightarrow> pynum \<Rightarrow> py_error + int" where
  "Depth_call_candidate divisor min_value name s x =
     bindE (fst (Depth divisor min_value name s)) (\<lambda>apply. Depth_candidate apply x)"

definition CorrectPad_call ::
  "'t backend \<Rightarrow> kernel \<Rightarrow> string option \<Rightarrow> backend_state \<Rightarrow> 't
     \<Rightarrow> py_error + ((int \<times> int) \<times> (int \<times> int))" where
  "CorrectPad_call B kernel_size name s x =
     bindE (fst (CorrectPad kernel_size name s)) (\<lambda>apply. CorrectPad_apply B apply x)"

definition InvertedResBlock_call ::
  "'t backend \<Rightarrow> int \<Rightarrow> int \<Rightarrow> pynum \<Rightarrow> int \<Rightarrow> int \<Rightarrow> string option \<Rightarrow> 't \<Rightarrow> 't py" where
  "InvertedResBlock_call B expansion stride alpha filters block_id name inputs =
     bind (InvertedResBlock B expansion stride alpha filters block_id name)
       (\<lambda>apply. InvertedResBlock_apply B apply inputs)"

section \<open>The depth rounding function in the spec's words\<close>

text \<open>
  Section 4.1 of the spec: \<open>min_value\<close> defaults to \<open>divisor\<close>;
  \<open>candidate = max(min_value, floor((target + divisor/2) / divisor) * divisor)\<close>; if
  \<open>candidate < 0.9 * target\<close> the candidate is incremented by exactly one \<open>divisor\<close>.
  This definition follows the spec, not the source, and reads the formula in exact
  arithmetic; it is compared with \<open>Depth\<close> below.
\<close>

definition round_channels_spec :: "real \<Rightarrow> int \<Rightarrow> int option \<Rightarrow> int" where
  "round_channels_spec target divisor min_value =
     (let min_value = (case min_value of None \<Rightarrow> divisor | Some m \<Rightarrow> m);
          candidate = max min_value
                        (\<lfloor>(target + of_int divisor / 2) / of_int divisor\<rfloor> * divisor)
      in if of_int candidate < 9 / 10 * target then candidate + divisor else candidate)"

text \<open>
  The same rule with the sum \<open>target + divisor/2\<close> and the product \<open>0.9 * target\<close> given as
  the floats \<open>S\<close> and \<open>P\<close> that double arithmetic produces for them.
\<close>

definition round_channels_rounded :: "real \<Rightarrow> pyfloat \<Rightarrow> int \<Rightarrow> int option \<Rightarrow> int" where
  "round_channels_rounded S P divisor min_value =
     (let min_value = (case min_value of None \<Rightarrow> divisor | Some m \<Rightarrow> m);
          candidate = max min_value (\<lfloor>S / of_int divisor\<rfloor> * divisor)
      in if int_lt_float candidate P then candidate + divisor else candidate)"

section \<open>Where an exception of a computation comes from\<close>

text \<open>Every exception that the computation \<open>m\<close> can raise, from any state, satisfies \<open>P\<close>.\<close>

definition raises_only :: "(py_error \<Rightarrow> bool) \<Rightarrow> 'a py \<Rightarrow> bool" where
  "raises_only P m \<longleftrightarrow> (\<forall>s e s'. m s = (Inl e, s') \<longrightarrow> P e)"

text \<open>An error that a layer constructor of the backend \<open>B\<close> returns for some layer.\<close>

definition backend_error :: "'t backend \<Rightarrow> py_error \<Rightarrow> bool" where
  "backend_error B e \<longleftrightarrow> (\<exists>l msg. construct B l = Some msg \<and> e = BackendError msg)"

section \<open>Facts about rounding to a double\<close>

text \<open>\<open>binade q\<close> is the exponent of the power of two at or below \<open>q\<close>.\<close>

lemma binade_bounds_ge1:
  assumes "1 \<le> q"
  shows "2 powi (binade q) \<le> q \<and> q < 2 powi (binade q + 1)"
proof -
  define n where "n = \<lfloor>q\<rfloor>"
  have n: "0 < n" "of_int n \<le> q" "q < of_int n + 1"
    unfolding n_def using assms by linarith+
  have b: "binade q = bitlen n - 1" using assms by (simp add: binade_def n_def)
  have bl: "1 \<le> bitlen n" using n(1) by (simp add: bitlen_alt_def)
  from bitlen_bounds [OF n(1)]
  have lo: "(2::int) ^ nat (bitlen n - 1) \<le> n" and hi: "n < 2 ^ nat (bitlen n)" by auto
  have p1: "(2::real) powi (bitlen n - 1) = 2 ^ nat (bitlen n - 1)"
    using bl by (simp add: power_int_def)
  have p2: "(2::real) powi (bitlen n) = 2 ^ nat (bitlen n)"
    using bl by (simp add: power_int_def)
  have "real_of_int (2 ^ nat (bitlen n - 1)) \<le> real_of_int n" using lo by (rule of_int_le_iff [THEN iffD2])
  then have l: "(2::real) ^ nat (bitlen n - 1) \<le> of_int n" by simp
  have "n + 1 \<le> 2 ^ nat (bitlen n)" using hi by simp
  then have "real_of_int (n + 1) \<le> real_of_int (2 ^ nat (bitlen n))" by (rule of_int_le_iff [THEN iffD2])
  then have h: "of_int n + 1 \<le> (2::real) ^ nat (bitlen n)" by simp
  have "bitlen n - 1 + 1 = bitlen n" by simp
  then have p3: "(2::real) powi (bitlen n - 1 + 1) = 2 ^ nat (bitlen n)" using p2 by simp
  show ?thesis unfolding b p1 p3 using l h n(2,3) by linarith
qed

lemma binade_bounds_lt1:
  assumes "0 < q" "q < 1"
  shows "2 powi (binade q) \<le> q \<and> q < 2 powi (binade q + 1)"
proof -
  define n where "n = \<lceil>1 / q\<rceil>"
  have iq: "1 < 1 / q" using assms by simp
  have n: "1 / q \<le> of_int n" "of_int n - 1 < 1 / q" unfolding n_def by linarith+
  have n1: "0 < n - 1" using iq n(1) by linarith
  define k where "k = bitlen (n - 1)"
  have b: "binade q = - k" using assms by (simp add: binade_def n_def k_def)
  have kl: "1 \<le> k" using n1 by (simp add: bitlen_alt_def k_def)
  from bitlen_bounds [OF n1]
  have lo: "(2::int) ^ nat (k - 1) \<le> n - 1" and hi: "n - 1 < 2 ^ nat k" by (auto simp: k_def)
  have "real_of_int (2 ^ nat (k - 1)) \<le> real_of_int (n - 1)" using lo by (rule of_int_le_iff [THEN iffD2])
  then have l: "(2::real) ^ nat (k - 1) \<le> of_int n - 1" by simp
  have "n \<le> 2 ^ nat k" using hi by simp
  then have "real_of_int n \<le> real_of_int (2 ^ nat k)" by (rule of_int_le_iff [THEN iffD2])
  then have h: "of_int n \<le> (2::real) ^ nat k" by simp
  have p1: "(2::real) powi (- k) = 1 / 2 ^ nat k"
    using kl by (simp add: power_int_def field_simps)
  have p2: "(2::real) powi (- k + 1) = 1 / 2 ^ nat (k - 1)"
    using kl by (simp add: power_int_def field_simps nat_diff_distrib)
  have "1 / q \<le> 2 ^ nat k" using n(1) h by linarith
  then have a: "1 / 2 ^ nat k \<le> q" using assms(1) by (simp add: field_simps)
  have "(2::real) ^ nat (k - 1) < 1 / q" using l n(2) by linarith
  then have c: "q < 1 / 2 ^ nat (k - 1)" using assms(1) by (simp add: field_simps)
  show ?thesis unfolding b p1 p2 using a c by simp
qed

lemma binade_bounds:
  assumes "0 < q"
  shows "2 powi (binade q) \<le> q" "q < 2 powi (binade q + 1)"
  using binade_bounds_ge1 [of q] binade_bounds_lt1 [of q] assms by (cases "1 \<le> q"; simp)+

lemma pow2_less_imp: "(2::real) powi a < 2 powi b \<Longrightarrow> a < b"
proof (rule ccontr)
  assume l: "(2::real) powi a < 2 powi b" and "\<not> a < b"
  then have "b \<le> a" by simp
  then have "(2::real) powi b \<le> 2 powi a" by (intro power_int_increasing) simp_all
  with l show False by simp
qed

lemma pow2_mono: "a \<le> b \<Longrightarrow> (2::real) powi a \<le> 2 powi b"
  by (intro power_int_increasing) simp_all

lemma pow2_add: "(2::real) powi a * 2 powi b = 2 powi (a + b)"
  by (simp add: power_int_add)

lemma binade_eq:
  assumes "0 < q" "2 powi e \<le> q" "q < 2 powi (e + 1)"
  shows "binade q = e"
proof -
  have "(2::real) powi e < 2 powi (binade q + 1)"
    using assms(2) binade_bounds(2) [OF assms(1)] by linarith
  then have "e < binade q + 1" by (rule pow2_less_imp)
  moreover have "(2::real) powi (binade q) < 2 powi (e + 1)"
    using assms(3) binade_bounds(1) [OF assms(1)] by linarith
  then have "binade q < e + 1" by (rule pow2_less_imp)
  ultimately show ?thesis by simp
qed

lemma binade_mono:
  assumes "0 < p" "p \<le> q"
  shows "binade p \<le> binade q"
proof -
  have "0 < q" using assms by simp
  then have "(2::real) powi (binade p) < 2 powi (binade q + 1)"
    using binade_bounds(1) [OF assms(1)] binade_bounds(2) [of q] assms(2) by linarith
  then have "binade p < binade q + 1" by (rule pow2_less_imp)
  then show ?thesis by simp
qed

text \<open>Rounding to an integer fixes the integers and is monotone.\<close>

lemma rhe_of_int [simp]: "round_half_even (of_int n) = n"
  by (simp add: round_half_even_def)

lemma rhe_bounds: "of_int (round_half_even x) \<le> x + 1 / 2" "x - 1 / 2 \<le> of_int (round_half_even x)"
  unfolding round_half_even_def Let_def by (simp_all; linarith)+

lemma rhe_floor_le: "\<lfloor>x\<rfloor> \<le> round_half_even x" and rhe_le_floor1: "round_half_even x \<le> \<lfloor>x\<rfloor> + 1"
  by (simp_all add: round_half_even_def Let_def)

lemma rhe_mono:
  assumes "x \<le> y"
  shows "round_half_even x \<le> round_half_even y"
proof (cases "\<lfloor>x\<rfloor> = \<lfloor>y\<rfloor>")
  case True
  have "x - of_int \<lfloor>y\<rfloor> \<le> y - of_int \<lfloor>y\<rfloor>" using assms by simp
  then show ?thesis unfolding round_half_even_def Let_def True by auto
next
  case False
  have "\<lfloor>x\<rfloor> \<le> \<lfloor>y\<rfloor>" using assms by (rule floor_mono)
  then have "\<lfloor>x\<rfloor> + 1 \<le> \<lfloor>y\<rfloor>" using False by simp
  then show ?thesis using rhe_le_floor1 [of x] rhe_floor_le [of y] by linarith
qed

lemma rhe_le_int: "x \<le> of_int n \<Longrightarrow> round_half_even x \<le> n"
  using rhe_mono [of x "of_int n"] by simp

lemma rhe_ge_int: "of_int n \<le> x \<Longrightarrow> n \<le> round_half_even x"
  using rhe_mono [of "of_int n" x] by simp

text \<open>
  The nearest double to a positive \<open>q\<close> lies in the closed binade of \<open>q\<close>; so rounding
  is monotone on the numbers \<open>\<ge> 0\<close>.
\<close>

lemma ulp_pos [simp]: "0 < ulp q"
  by (simp add: ulp_def double_exponent_def)

lemma ulp_neq_0 [simp]: "ulp q \<noteq> 0"
  by (simp add: ulp_def double_exponent_def)

lemma ulp_nonneg [simp]: "0 \<le> ulp q"
  using ulp_pos [of q] by (rule less_imp_le)

lemma nearest_nonneg: "0 \<le> q \<Longrightarrow> 0 \<le> nearest_double q"
proof -
  assume "0 \<le> q"
  then have "of_int 0 \<le> q / ulp q" using ulp_pos [of q] by (simp add: divide_nonneg_pos)
  then have "0 \<le> round_half_even (q / ulp q)" by (rule rhe_ge_int)
  then show ?thesis unfolding nearest_double_def by (intro mult_nonneg_nonneg) simp_all
qed

lemma ulp_ex: "ulp q = 2 powi (double_exponent q - 52)"
  by (rule ulp_def)

lemma nearest_upper:
  assumes "0 < q"
  shows "nearest_double q \<le> 2 powi (double_exponent q + 1)"
proof -
  have "q < 2 powi (binade q + 1)" using binade_bounds(2) [OF assms] .
  also have "\<dots> \<le> 2 powi (double_exponent q + 1)" using assms by (intro pow2_mono) (simp add: double_exponent_def)
  finally have "q < 2 powi (double_exponent q + 1)" .
  moreover have "(2::real) powi (double_exponent q + 1) = 2 powi 53 * ulp q"
    unfolding ulp_ex pow2_add by (simp add: algebra_simps)
  ultimately have "q / ulp q \<le> of_int (2 ^ 53)" by (simp add: field_simps)
  then have "round_half_even (q / ulp q) \<le> 2 ^ 53" by (rule rhe_le_int)
  then have "real_of_int (round_half_even (q / ulp q)) \<le> real_of_int (2 ^ 53)"
    by (rule of_int_le_iff [THEN iffD2])
  then have "nearest_double q \<le> 2 ^ 53 * ulp q"
    unfolding nearest_double_def by (simp add: mult_right_mono)
  also have "\<dots> = 2 powi (double_exponent q + 1)" unfolding ulp_ex
    using pow2_add [of 53 "double_exponent q - 52"] by (simp add: algebra_simps)
  finally show ?thesis .
qed

lemma nearest_lower:
  assumes "0 < q" "- 1022 \<le> binade q"
  shows "2 powi (double_exponent q) \<le> nearest_double q"
proof -
  have e: "double_exponent q = binade q" using assms by (simp add: double_exponent_def)
  have "2 powi (double_exponent q) \<le> q" unfolding e using binade_bounds(1) [OF assms(1)] .
  moreover have "(2::real) powi (double_exponent q) = 2 powi 52 * ulp q"
    unfolding ulp_ex pow2_add by (simp add: algebra_simps)
  ultimately have "of_int (2 ^ 52) \<le> q / ulp q" by (simp add: field_simps)
  then have "2 ^ 52 \<le> round_half_even (q / ulp q)" by (rule rhe_ge_int)
  then have "real_of_int (2 ^ 52) \<le> real_of_int (round_half_even (q / ulp q))"
    by (rule of_int_le_iff [THEN iffD2])
  then have "2 ^ 52 * ulp q \<le> nearest_double q"
    unfolding nearest_double_def by (simp add: mult_right_mono)
  moreover have "2 ^ 52 * ulp q = 2 powi (double_exponent q)" unfolding ulp_ex
    using pow2_add [of 52 "double_exponent q - 52"] by (simp add: algebra_simps)
  ultimately show ?thesis by simp
qed

lemma nearest_mono:
  assumes "0 < p" "p \<le> q"
  shows "nearest_double p \<le> nearest_double q"
proof -
  have q: "0 < q" using assms by simp
  have le: "double_exponent p \<le> double_exponent q" using binade_mono [OF assms] assms q by (simp add: double_exponent_def)
  show ?thesis
  proof (cases "double_exponent p = double_exponent q")
    case True
    then have u: "ulp p = ulp q" by (simp add: ulp_ex)
    have "p / ulp q \<le> q / ulp q"
      using assms(2) ulp_pos [of q] by (intro divide_right_mono) simp_all
    then have "round_half_even (p / ulp q) \<le> round_half_even (q / ulp q)" by (rule rhe_mono)
    then have "real_of_int (round_half_even (p / ulp q)) \<le> real_of_int (round_half_even (q / ulp q))"
      by (rule of_int_le_iff [THEN iffD2])
    then show ?thesis unfolding nearest_double_def u by (simp add: mult_right_mono)
  next
    case False
    then have lt: "double_exponent p + 1 \<le> double_exponent q" using le by simp
    then have "- 1022 < double_exponent q" by (simp add: double_exponent_def)
    then have b: "- 1022 \<le> binade q" using q by (simp add: double_exponent_def max_def split: if_splits)
    have "nearest_double p \<le> 2 powi (double_exponent p + 1)" using nearest_upper [OF assms(1)] .
    also have "\<dots> \<le> 2 powi (double_exponent q)" using lt by (rule pow2_mono)
    also have "\<dots> \<le> nearest_double q" using nearest_lower [OF q b] .
    finally show ?thesis .
  qed
qed

lemma double_round_mono:
  assumes "0 \<le> p" "p \<le> q" "double_round q = Finite r"
  shows "\<exists>r'. double_round p = Finite r' \<and> 0 \<le> r' \<and> r' \<le> r"
proof (cases "p = 0")
  case True
  have "0 \<le> r" using assms nearest_nonneg [of q]
    by (auto simp: double_round_def Let_def split: if_splits)
  then show ?thesis using True by (simp add: double_round_def)
next
  case False
  then have p: "0 < p" using assms(1) by simp
  then have q: "0 < q" using assms(2) by simp
  have r: "r = nearest_double q" "\<bar>nearest_double q\<bar> < 2 powi 1024"
    using assms(3) q by (auto simp: double_round_def Let_def split: if_splits)
  have m: "nearest_double p \<le> nearest_double q" using nearest_mono [OF p assms(2)] .
  have n: "0 \<le> nearest_double p" using p nearest_nonneg [of p] by simp
  have "\<bar>nearest_double p\<bar> < 2 powi 1024" using m n r(2) by linarith
  then have "double_round p = Finite (nearest_double p)" using p
    by (simp add: double_round_def Let_def)
  then show ?thesis using m n r(1) by simp
qed


text \<open>
  Computing a rounding from the binade of the number, and the numbers that rounding
  leaves as they are: an integer below \<open>2 ^ 53\<close> in magnitude times a power of two.
\<close>

lemma double_round_eval:
  assumes "0 < q" "2 powi e \<le> q" "q < 2 powi (e + 1)" "- 1022 \<le> e"
    and "r = of_int (round_half_even (q / 2 powi (e - 52))) * 2 powi (e - 52)"
    and "r < 2 powi 1024"
  shows "double_round q = Finite r"
proof -
  have b: "binade q = e" using assms(1-3) by (rule binade_eq)
  have u: "ulp q = 2 powi (e - 52)" using assms(1,4) b by (simp add: ulp_def double_exponent_def)
  have n: "nearest_double q = r" by (simp add: nearest_double_def u assms(5))
  have "0 \<le> r" using nearest_nonneg [of q] assms(1) n by simp
  then show ?thesis using assms(1,6) n by (simp add: double_round_def)
qed

lemma double_round_exact:
  assumes "q = of_int m * 2 powi k" "\<bar>m\<bar> < 2 ^ 53" "- 1074 \<le> k" "\<bar>q\<bar> < 2 powi 1024"
  shows "double_round q = Finite q"
proof (cases "q = 0")
  case True
  then show ?thesis by (simp add: double_round_def)
next
  case False
  then have m0: "m \<noteq> 0" using assms(1) by auto
  have aq: "\<bar>q\<bar> = of_int \<bar>m\<bar> * 2 powi k" by (simp add: assms(1) abs_mult)
  have pos: "0 < \<bar>q\<bar>" using False by simp
  have "real_of_int \<bar>m\<bar> < real_of_int (2 ^ 53)" using assms(2) by (rule of_int_less_iff [THEN iffD2])
  then have "\<bar>q\<bar> < 2 powi 53 * 2 powi k" unfolding aq by (simp add: mult_strict_right_mono)
  then have "\<bar>q\<bar> < 2 powi (53 + k)" unfolding pow2_add .
  then have "(2::real) powi (binade \<bar>q\<bar>) < 2 powi (53 + k)"
    using binade_bounds(1) [OF pos] by linarith
  then have bk: "binade \<bar>q\<bar> < 53 + k" by (rule pow2_less_imp)
  define d where "d = k - double_exponent q + 52"
  have d: "0 \<le> d" using bk assms(3) by (simp add: d_def double_exponent_def)
  have kk: "(2::real) powi d * 2 powi (double_exponent q - 52) = 2 powi k"
    unfolding pow2_add by (simp add: d_def)
  define u where "u = ulp q"
  have up: "u \<noteq> 0" by (simp add: u_def)
  have "(2::real) powi k = 2 powi d * 2 powi (double_exponent q - 52)" unfolding pow2_add by (simp add: d_def)
  then have "q = of_int m * 2 powi d * u" unfolding u_def ulp_ex using assms(1) by simp
  then have "q / u = of_int m * 2 powi d" using up by simp
  then have "q / ulp q = of_int m * 2 powi d" by (simp add: u_def)
  also have "\<dots> = of_int (m * 2 ^ nat d)" using d by (simp add: power_int_def)
  finally have e: "q / ulp q = of_int (m * 2 ^ nat d)" .
  have "round_half_even (q / ulp q) = m * 2 ^ nat d" unfolding e by (rule rhe_of_int)
  then have "nearest_double q = of_int (m * 2 ^ nat d) * ulp q" by (simp add: nearest_double_def)
  also have "\<dots> = of_int m * (2 powi d * 2 powi (double_exponent q - 52))" using d by (simp add: power_int_def ulp_ex)
  also have "\<dots> = q" unfolding kk using assms(1) by simp
  finally have n: "nearest_double q = q" .
  show ?thesis using False assms(4) n by (simp add: double_round_def)
qed

lemma double_round_int: "\<bar>n\<bar> < 2 ^ 53 \<Longrightarrow> double_round (of_int n) = Finite (of_int n)"
proof -
  assume a: "\<bar>n\<bar> < 2 ^ 53"
  then have "real_of_int \<bar>n\<bar> < real_of_int (2 ^ 53)" by (rule of_int_less_iff [THEN iffD2])
  then have "\<bar>real_of_int n\<bar> < 2 powi 1024" by simp
  then show ?thesis using a by (intro double_round_exact [of _ n 0]) simp_all
qed

section \<open>Facts about Depth and CorrectPad\<close>

lemma double_round_numeral:
  "numeral k < (2::int) ^ 53 \<Longrightarrow> double_round (numeral k) = Finite (numeral k)"
  using double_round_int [of "numeral k"] by simp

lemma double_round_neg_numeral:
  "numeral k < (2::int) ^ 53 \<Longrightarrow> double_round (- numeral k) = Finite (- numeral k)"
  using double_round_int [of "- numeral k"] by simp

lemma double_round_1: "double_round 1 = Finite 1"
  using double_round_int [of 1] by simp

lemma double_round_pow2_1022: "double_round (2 ^ 1022) = Finite (2 ^ 1022)"
  by (rule double_round_exact [of _ 1 1022]) simp_all

lemma double_round_pow2_1023: "double_round (2 ^ 1023) = Finite (2 ^ 1023)"
  by (rule double_round_exact [of _ 1 1023]) simp_all

text \<open>The literal \<open>0.9\<close> is the double \<open>8106479329266893 / 2 ^ 53\<close>, a little above 9/10.\<close>

lemma literal_0_9_value: "literal_0_9 = Finite (8106479329266893 / 9007199254740992)"
  unfolding literal_0_9_def
  by (rule double_round_eval [where e = "- 1"]) (simp_all add: round_half_even_def)

text \<open>A number in the range \<open>[0, 2 ^ 1022]\<close> converts to a float in that range.\<close>

lemma as_float_bounded:
  assumes "num_value x = Some v" "0 \<le> v" "v \<le> 2 ^ 1022"
  shows "\<exists>a. as_float x = Inr (Finite a) \<and> 0 \<le> a \<and> a \<le> 2 ^ 1022"
proof (cases x)
  case (PInt n)
  then have v: "v = of_int n" using assms(1) by simp
  obtain r where r: "double_round (of_int n) = Finite r" "0 \<le> r" "r \<le> 2 ^ 1022"
    using double_round_mono [OF _ _ double_round_pow2_1022, of "of_int n"] assms(2,3) v by auto
  then show ?thesis using PInt by (simp add: as_float_def float_of_int_def)
next
  case (PFloat f)
  then have "f = Finite v" using assms(1) by (cases f) simp_all
  then show ?thesis using PFloat assms(2,3) by (simp add: as_float_def)
qed

text \<open>\<open>0.9 * a\<close> for a float \<open>a \<ge> 0\<close> is finite and not above any finite rounding of a \<open>b \<ge> a\<close>.\<close>

lemma product_bounded:
  assumes "0 \<le> a" "a \<le> b" "double_round b = Finite S"
  shows "\<exists>t. float_mul literal_0_9 (Finite a) = Finite t \<and> 0 \<le> t \<and> t \<le> S"
proof -
  let ?c = "8106479329266893 / 9007199254740992 :: real"
  have "?c * a \<le> 1 * a" using assms(1) by (intro mult_right_mono) simp_all
  then have "0 \<le> ?c * a" "?c * a \<le> b" using assms(1,2) by simp_all
  from double_round_mono [OF this assms(3)]
  show ?thesis by (simp add: literal_0_9_value)
qed

text \<open>The two lines of \<open>Depth.apply\<close>, given the floats that the arithmetic produces.\<close>

lemma Depth_candidate_eval:
  assumes "as_float x = Inr (Finite a)" "d \<noteq> 0"
    and "double_round (of_int d / 2) = Finite h" "double_round (a + h) = Finite S"
  shows "Depth_candidate \<lparr>cell_divisor = d, cell_min_value = m\<rparr> x
           = Inr (max m (trunc S div d * d))"
  using assms
  by (simp add: Depth_candidate_def int_truediv_def num_add_float_def bindE_def py_int_def)

lemma Depth_apply_eval:
  assumes "as_float x = Inr (Finite a)" "d \<noteq> 0"
    and "double_round (of_int d / 2) = Finite h" "double_round (a + h) = Finite S"
    and "float_mul literal_0_9 (Finite a) = P"
  shows "Depth_apply \<lparr>cell_divisor = d, cell_min_value = m\<rparr> x
           = Inr (if int_lt_float (max m (trunc S div d * d)) P
                  then max m (trunc S div d * d) + d else max m (trunc S div d * d))"
  using assms(1,5) Depth_candidate_eval [OF assms(1-4), of m]
  by (simp add: Depth_apply_def float_mul_num_def bindE_def)

lemma fst_Depth:
  "fst (Depth d m name s) =
     Inr \<lparr>cell_divisor = d, cell_min_value = (case m of None \<Rightarrow> d | Some v \<Rightarrow> v)\<rparr>"
  by (simp add: Depth_def bind_def ret_def get_uid_def Let_def split: option.splits)

lemma fst_CorrectPad: "fst (CorrectPad k name s) = Inr CorrectPadFn"
  by (simp add: CorrectPad_def bind_def ret_def get_uid_def Let_def split: option.splits)

lemma Depth_call_cells:
  "Depth_call d m name s x =
     Depth_apply \<lparr>cell_divisor = d, cell_min_value = (case m of None \<Rightarrow> d | Some v \<Rightarrow> v)\<rparr> x"
  by (simp add: Depth_call_def fst_Depth bindE_def)

lemma Depth_call_candidate_cells:
  "Depth_call_candidate d m name s x =
     Depth_candidate \<lparr>cell_divisor = d, cell_min_value = (case m of None \<Rightarrow> d | Some v \<Rightarrow> v)\<rparr> x"
  by (simp add: Depth_call_candidate_def fst_Depth bindE_def)

text \<open>\<open>Depth(8, m)\<close> on an integer target below \<open>2 ^ 52\<close>: only the product is rounded.\<close>

lemma Depth_8_small_int:
  assumes "0 \<le> n" "n < 2 ^ 52" "float_mul literal_0_9 (Finite (of_int n)) = P"
  shows "Depth_apply \<lparr>cell_divisor = 8, cell_min_value = m\<rparr> (PInt n)
           = Inr (if int_lt_float (max m ((n + 4) div 8 * 8)) P
                  then max m ((n + 4) div 8 * 8) + 8 else max m ((n + 4) div 8 * 8))"
    and "Depth_candidate \<lparr>cell_divisor = 8, cell_min_value = m\<rparr> (PInt n)
           = Inr (max m ((n + 4) div 8 * 8))"
proof -
  have "\<bar>n\<bar> < 2 ^ 53" using assms(1,2) by simp
  then have a: "as_float (PInt n) = Inr (Finite (of_int n))"
    by (simp add: as_float_def float_of_int_def double_round_int)
  have h: "double_round (of_int 8 / 2) = Finite 4"
    using double_round_int [of 4] by simp
  have "\<bar>n + 4\<bar> < 2 ^ 53" using assms(1,2) by simp
  then have "double_round (of_int (n + 4)) = Finite (of_int (n + 4))" by (rule double_round_int)
  then have S: "double_round (of_int n + 4) = Finite (of_int (n + 4))" by simp
  have t: "trunc (of_int (n + 4)) = n + 4" using assms(1) by (simp add: trunc_def)
  show "Depth_apply \<lparr>cell_divisor = 8, cell_min_value = m\<rparr> (PInt n)
           = Inr (if int_lt_float (max m ((n + 4) div 8 * 8)) P
                  then max m ((n + 4) div 8 * 8) + 8 else max m ((n + 4) div 8 * 8))"
    using Depth_apply_eval [OF a _ h S assms(3), of m] unfolding t by simp
  show "Depth_candidate \<lparr>cell_divisor = 8, cell_min_value = m\<rparr> (PInt n)
           = Inr (max m ((n + 4) div 8 * 8))"
    using Depth_candidate_eval [OF a _ h S, of m] unfolding t by simp
qed

text \<open>Rounding down to a multiple of \<open>d\<close> loses less than \<open>d\<close>.\<close>

lemma div_mult_lower: "0 < (d::int) \<Longrightarrow> n - d < n div d * d"
proof -
  assume d: "0 < d"
  have "n mod d < d" using d by simp
  moreover have "n = n div d * d + n mod d" by simp
  ultimately show ?thesis by linarith
qed

lemma Depth_8_bounds:
  assumes "num_value x = Some v" "0 \<le> v" "v \<le> 2 ^ 1022"
  shows "\<exists>r t. Depth_apply \<lparr>cell_divisor = 8, cell_min_value = m\<rparr> x = Inr r
           \<and> float_mul_num literal_0_9 x = Inr (Finite t) \<and> t \<le> of_int r
           \<and> 0 \<le> r \<and> m \<le> r \<and> (8 dvd r \<or> r = m \<or> r = m + 8)"
proof -
  obtain a where a: "as_float x = Inr (Finite a)" "0 \<le> a" "a \<le> 2 ^ 1022"
    using as_float_bounded [OF assms] by blast
  have h: "double_round (of_int 8 / 2) = Finite 4"
    using double_round_int [of 4] by simp
  have "a + 4 \<le> 2 ^ 1023" using a(3) by simp
  then obtain S where S: "double_round (a + 4) = Finite S" "0 \<le> S"
    using double_round_mono [OF _ _ double_round_pow2_1023, of "a + 4"] a(2) by auto
  obtain t where t: "float_mul literal_0_9 (Finite a) = Finite t" "0 \<le> t" "t \<le> S"
    using product_bounded [OF a(2) _ S(1)] by auto
  define c where "c = trunc S div 8 * 8"
  define n where "n = max m c"
  have tr: "trunc S = \<lfloor>S\<rfloor>" using S(2) by (simp add: trunc_def)
  have f0: "0 \<le> \<lfloor>S\<rfloor>" using S(2) by simp
  have cn: "0 \<le> c" using f0 by (simp add: c_def tr pos_imp_zdiv_nonneg_iff)
  have "\<lfloor>S\<rfloor> - 8 < c" unfolding c_def tr by (rule div_mult_lower) simp
  then have "\<lfloor>S\<rfloor> + 1 \<le> c + 8" by simp
  then have "real_of_int (\<lfloor>S\<rfloor> + 1) \<le> real_of_int (c + 8)" by (rule of_int_le_iff [THEN iffD2])
  moreover have "S < real_of_int (\<lfloor>S\<rfloor> + 1)" by linarith
  ultimately have up: "t \<le> real_of_int (c + 8)" using t(3) by linarith
  have dvd: "8 dvd c" by (simp add: c_def)
  have n: "m \<le> n" "c \<le> n" "n = m \<or> n = c" by (auto simp: n_def)
  have eq: "Depth_apply \<lparr>cell_divisor = 8, cell_min_value = m\<rparr> x =
      Inr (if of_int n < t then n + 8 else n)"
    using Depth_apply_eval [OF a(1) _ h S(1) t(1), of m]
    by (simp add: n_def c_def int_lt_float_def)
  have ft: "float_mul_num literal_0_9 x = Inr (Finite t)"
    using a(1) t(1) by (simp add: float_mul_num_def bindE_def)
  show ?thesis
  proof (cases "of_int n < t")
    case True
    have "real_of_int (c + 8) \<le> real_of_int (n + 8)" using n(2) by simp
    then have "t \<le> real_of_int (n + 8)" using up by linarith
    moreover have "0 \<le> n + 8" using n(2) cn by simp
    moreover have "m \<le> n + 8" using n(1) by simp
    moreover have "8 dvd (n + 8) \<or> n + 8 = m \<or> n + 8 = m + 8" using n(3) dvd by auto
    ultimately show ?thesis using eq ft True by simp
  next
    case False
    then have "t \<le> real_of_int n" by simp
    moreover have "0 \<le> n" using n(2) cn by simp
    moreover have "8 dvd n \<or> n = m \<or> n = m + 8" using n(3) dvd by auto
    ultimately show ?thesis using eq ft False n(1) by simp
  qed
qed

text \<open>
  On a positive target and a positive divisor, both up to \<open>2 ^ 1022\<close>, the source computes
  the spec's rule on the rounded sum and the rounded product.
\<close>

lemma Depth_call_rounded:
  assumes "num_value x = Some v" "0 \<le> v" "v \<le> 2 ^ 1022" "0 < d" "of_int d \<le> (2::real) ^ 1022"
  shows "\<exists>S P. bindE (int_truediv d 2) (num_add_float x) = Inr (Finite S)
           \<and> float_mul_num literal_0_9 x = Inr P
           \<and> Depth_call d mv name s x = Inr (round_channels_rounded S P d mv)"
proof -
  obtain a where a: "as_float x = Inr (Finite a)" "0 \<le> a" "a \<le> 2 ^ 1022"
    using as_float_bounded [OF assms(1-3)] by blast
  have "0 \<le> real_of_int d / 2" "real_of_int d / 2 \<le> 2 ^ 1022" using assms(4,5) by simp_all
  from double_round_mono [OF this double_round_pow2_1022]
  obtain h where h: "double_round (of_int d / 2) = Finite h" "0 \<le> h" "h \<le> 2 ^ 1022" by blast
  have "0 \<le> a + h" "a + h \<le> 2 ^ 1023" using a(2,3) h(2,3) by simp_all
  from double_round_mono [OF this double_round_pow2_1023]
  obtain S where S: "double_round (a + h) = Finite S" "0 \<le> S" by blast
  define P where "P = float_mul literal_0_9 (Finite a)"
  have d0: "d \<noteq> 0" using assms(4) by simp
  have tr: "trunc S = \<lfloor>S\<rfloor>" using S(2) by (simp add: trunc_def)
  have fl: "\<lfloor>S\<rfloor> div d = \<lfloor>S / of_int d\<rfloor>" using assms(4) by (simp add: floor_divide_real_eq_div)
  have 1: "bindE (int_truediv d 2) (num_add_float x) = Inr (Finite S)"
    using a(1) h(1) S(1) d0 by (simp add: int_truediv_def num_add_float_def bindE_def)
  have 2: "float_mul_num literal_0_9 x = Inr P"
    using a(1) by (simp add: float_mul_num_def bindE_def P_def)
  have 3: "Depth_call d mv name s x = Inr (round_channels_rounded S P d mv)"
    unfolding Depth_call_cells
    using Depth_apply_eval [OF a(1) d0 h(1) S(1) P_def [symmetric]]
    by (simp add: round_channels_rounded_def Let_def tr fl)
  from 1 2 3 show ?thesis by blast
qed

lemma Depth_8_zero:
  assumes "0 < (case mv of None \<Rightarrow> 8 | Some m \<Rightarrow> m)"
  shows "Depth_call 8 mv name s (PInt 0) = Inr (case mv of None \<Rightarrow> 8 | Some m \<Rightarrow> m)"
proof -
  have P: "float_mul literal_0_9 (Finite (of_int 0)) = Finite 0"
    by (simp add: literal_0_9_value double_round_def)
  show ?thesis unfolding Depth_call_cells
    using Depth_8_small_int(1) [OF _ _ P, of "case mv of None \<Rightarrow> 8 | Some m \<Rightarrow> m"] assms
    by (simp add: int_lt_float_def)
qed

lemma CorrectPad_apply_unbound: "CorrectPad_apply B f x = Inl UnboundLocalError"
  by (simp add: CorrectPad_apply_def local_var_def bindE_def)

section \<open>Facts about InvertedResBlock\<close>

text \<open>Line 225 compares \<open>in_channels\<close> with a function object: \<open>add\<close> is never called.\<close>

lemma InvertedResBlock_apply_no_add:
  "InvertedResBlock_apply B f inputs =
     bind (InvertedResBlock_project B f inputs) (\<lambda>(in_channels, x). ret x)"
proof -
  have "\<And>c g. \<not> py_eq (case c of None \<Rightarrow> NoneV | Some c \<Rightarrow> IntV c) (FunV g)"
    by (simp split: option.split)
  then show ?thesis by (simp add: InvertedResBlock_apply_def)
qed

text \<open>With \<open>block_id \<noteq> 0\<close> the expansion branch stops at its read of \<open>prefix\<close>.\<close>

lemma InvertedResBlock_expand_unbound:
  "cell_block_id f \<noteq> 0 \<Longrightarrow>
     InvertedResBlock_expand B f (Some c) x s = (Inl UnboundLocalError, s)"
  by (simp add: InvertedResBlock_expand_def bind_def lift_def local_var_def)

text \<open>Line 148 on the inputs used below.\<close>

lemma line_148_at_16: "bindE (int_mul_num 16 (PFloat (Finite 1))) py_int = Inr 16"
  by (simp add: int_mul_num_def float_of_int_def bindE_def py_int_def trunc_def
                double_round_numeral)

lemma line_148_at_minus_5: "bindE (int_mul_num (- 5) (PFloat (Finite (- 1)))) py_int = Inr 5"
  by (simp add: int_mul_num_def float_of_int_def bindE_def py_int_def trunc_def
                double_round_numeral double_round_neg_numeral)

lemma line_148_at_inf: "bindE (int_mul_num 16 (PFloat PosInf)) py_int = Inl OverflowError"
  by (simp add: int_mul_num_def float_of_int_def bindE_def py_int_def double_round_numeral)

text \<open>Line 148 raises nothing but \<open>OverflowError\<close> and \<open>ValueError\<close>.\<close>

lemma line_148_errors:
  assumes "bindE (int_mul_num n x) py_int = Inl e"
  shows "e = OverflowError \<or> e = ValueError"
proof (cases x)
  case (PInt k)
  then show ?thesis using assms by (simp add: int_mul_num_def bindE_def py_int_def)
next
  case (PFloat f)
  show ?thesis
  proof (cases "float_of_int n")
    case (Inl e')
    then have "e' = OverflowError"
      by (auto simp: float_of_int_def split: pyfloat.splits)
    then show ?thesis using assms PFloat Inl by (simp add: int_mul_num_def bindE_def)
  next
    case (Inr a)
    then show ?thesis using assms PFloat
      by (cases "float_mul a f") (simp_all add: int_mul_num_def bindE_def py_int_def)
  qed
qed

lemma ro_ret: "raises_only P (ret x)"
  by (simp add: raises_only_def ret_def)

lemma ro_get_uid: "raises_only P (get_uid p)"
  by (simp add: raises_only_def get_uid_def Let_def)

lemma ro_new_layer: "(\<And>e. backend_error B e \<Longrightarrow> P e) \<Longrightarrow> raises_only P (new_layer B l)"
  by (auto simp: raises_only_def new_layer_def backend_error_def split: option.splits)

lemma ro_lift: "(\<And>e. r = Inl e \<Longrightarrow> P e) \<Longrightarrow> raises_only P (lift r)"
  by (simp add: raises_only_def lift_def)

lemma ro_bind:
  assumes "raises_only P m" and "\<And>a. raises_only P (f a)"
  shows "raises_only P (bind m f)"
  unfolding raises_only_def
proof (intro allI impI)
  fix s e s'
  assume r: "bind m f s = (Inl e, s')"
  obtain v t where mt: "m s = (v, t)" by (cases "m s")
  show "P e"
  proof (cases v)
    case (Inl e1)
    with mt r have "m s = (Inl e, s')" by (simp add: bind_def)
    with assms(1) show ?thesis unfolding raises_only_def by blast
  next
    case (Inr a)
    with mt r have "f a t = (Inl e, s')" by (simp add: bind_def)
    with assms(2) [of a] show ?thesis unfolding raises_only_def by blast
  qed
qed

lemma ro_name:
  "raises_only P
     (case name of None \<Rightarrow> bind (get_uid p) (\<lambda>u. ret (q @ str_nat u)) | Some n \<Rightarrow> ret n)"
  by (cases name) (simp_all add: ro_bind ro_get_uid ro_ret)

lemma ro_Depth: "raises_only P (Depth d m name)"
  unfolding Depth_def Let_def by (intro ro_bind ro_name ro_ret)

lemma ro_CorrectPad: "raises_only P (CorrectPad k name)"
  unfolding CorrectPad_def by (intro ro_bind ro_name ro_ret)

text \<open>
  The builder raises only what a layer constructor of the backend returned, or what
  line 148 raised.
\<close>

lemma ro_InvertedResBlock:
  "raises_only (\<lambda>e. backend_error B e \<or> bindE (int_mul_num filters alpha) py_int = Inl e)
     (InvertedResBlock B expansion stride alpha filters block_id name)"
  unfolding InvertedResBlock_def Let_def
  by (intro ro_bind ro_name ro_ret ro_new_layer ro_Depth ro_CorrectPad ro_lift) simp_all

text \<open>
  With \<open>block_id \<noteq> 0\<close> every application raises, whatever the backend and the input,
  and leaves the backend state as it was: no layer is constructed.
\<close>

lemma InvertedResBlock_apply_block_id_nonzero:
  assumes "cell_block_id f \<noteq> 0"
  shows "\<exists>e. InvertedResBlock_apply B f inputs s = (Inl e, s)
              \<and> (e = IndexError \<or> e = TypeError \<or> e = UnboundLocalError)"
proof (cases "int_shape B inputs = []")
  case True
  then show ?thesis
    by (simp add: InvertedResBlock_apply_no_add InvertedResBlock_project_def bind_def lift_def
                  py_last_def)
next
  case False
  show ?thesis
  proof (cases "last (int_shape B inputs)")
    case None
    then show ?thesis using False assms
      by (simp add: InvertedResBlock_apply_no_add InvertedResBlock_project_def
                    InvertedResBlock_expand_def bind_def lift_def py_last_def)
  next
    case (Some c)
    then show ?thesis using False assms
      by (simp add: InvertedResBlock_apply_no_add InvertedResBlock_project_def
                    InvertedResBlock_expand_unbound bind_def lift_def py_last_def)
  qed
qed

text \<open>With \<open>stride = 2\<close> every application raises as well: \<open>correct_pad(x)\<close> does.\<close>

lemma InvertedResBlock_apply_stride_2:
  assumes "cell_stride f = 2"
  shows "\<exists>e. InvertedResBlock_apply B f inputs s = (Inl e, s)"
proof (cases "cell_block_id f = 0")
  case False
  then show ?thesis using InvertedResBlock_apply_block_id_nonzero [of f B inputs s] by blast
next
  case True
  then show ?thesis using assms
    by (simp add: InvertedResBlock_apply_no_add InvertedResBlock_project_def
                  InvertedResBlock_expand_def CorrectPad_apply_unbound bind_def lift_def ret_def
                  py_last_def)
qed

text \<open>
  On a backend that accepts every layer, and when line 148 evaluates, the builder
  constructs eight layers, once each, in this order.
\<close>

lemma InvertedResBlock_builds:
  assumes "\<forall>l. construct B l = None" "bindE (int_mul_num filters alpha) py_int = Inr n"
  shows "map layer_name
           (allocated (snd (InvertedResBlock B expansion stride alpha filters block_id name s)))
     = map layer_name (allocated s) @
       map (\<lambda>n. ''block_'' @ str_int block_id @ ''_'' @ n)
         [''expand_BN'', ''expand_relu'', ''depthwise'', ''depthwise_BN'',
          ''depthwise_relu'', ''project'', ''project_BN'', ''add'']"
  using assms
  by (cases name)
     (simp_all add: InvertedResBlock_def Depth_def CorrectPad_def bind_def ret_def get_uid_def
               new_layer_def lift_def Let_def)

section \<open>The claims about Depth\<close>

text \<open>
  Claim C4, as stated: \<open>round_channels(100, 8)\<close> with the default \<open>min_value\<close> returns 96.
  It does not: \<open>100 + 8 / 2 = 104\<close> is itself a multiple of 8, so rounding half up
  gives 104.
\<close>

theorem Depth_100_is_not_96: "Depth_call 8 None None fresh (PInt 100) \<noteq> Inr 96"
proof -
  have P: "float_mul literal_0_9 (Finite (of_int 100)) = Finite 90"
    unfolding literal_0_9_value float_mul.simps
    by (rule double_round_eval [where e = 6]) (simp_all add: round_half_even_def)
  show ?thesis
    using Depth_8_small_int(1) [OF _ _ P, of 8]
    by (simp add: Depth_call_cells int_lt_float_def)
qed

text \<open>
  Claim C4, amended: \<open>round_channels(100, 8)\<close> with the default \<open>min_value\<close> returns
  exactly 104; the candidate before correction is 104, and the correction rule does not
  fire because 104 is not below \<open>0.9 * 100 = 90\<close> (the float product is exactly 90). This
  holds for every \<open>name\<close> and in every backend state.
\<close>

theorem Depth_100_is_104:
  "Depth_call_candidate 8 None name s (PInt 100) = Inr 104
   \<and> float_mul_num literal_0_9 (PInt 100) = Inr (Finite 90)
   \<and> \<not> ((104::real) < 90)
   \<and> \<not> ((104::real) < 9 / 10 * 100)
   \<and> Depth_call 8 None name s (PInt 100) = Inr 104"
proof -
  have P: "float_mul literal_0_9 (Finite (of_int 100)) = Finite 90"
    unfolding literal_0_9_value float_mul.simps
    by (rule double_round_eval [where e = 6]) (simp_all add: round_half_even_def)
  have a: "as_float (PInt 100) = Inr (Finite (of_int 100))"
    by (simp add: as_float_def float_of_int_def double_round_numeral)
  have "float_mul_num literal_0_9 (PInt 100) = Inr (Finite 90)"
    using P by (simp add: float_mul_num_def a bindE_def)
  moreover have "Depth_call_candidate 8 None name s (PInt 100) = Inr 104"
    using Depth_8_small_int(2) [of 100 "Finite 90" 8] P
    by (simp add: Depth_call_candidate_cells)
  moreover have "Depth_call 8 None name s (PInt 100) = Inr 104"
    using Depth_8_small_int(1) [OF _ _ P, of 8]
    by (simp add: Depth_call_cells int_lt_float_def)
  ultimately show ?thesis by simp
qed

text \<open>
  Claim C5, as stated: for every target \<open>\<ge> 0\<close>, \<open>round_channels(target, divisor=8)\<close>
  returns a positive integer that is a multiple of 8, or is the supplied \<open>min_value\<close> when
  that is no multiple of 8, and that is \<open>\<ge> 0.9 * target\<close>. Four inputs where it fails:
  \<^item> \<open>min_value = 9\<close>, target 11: the candidate \<open>max(9, 8) = 9\<close> is below \<open>0.9 * 11\<close>, the
    correction adds 8, and 17 is neither a multiple of 8 nor the supplied \<open>min_value\<close>;
  \<^item> \<open>min_value = 0\<close>, target 0: the result 0 is not positive;
  \<^item> target \<open>float(80/9)\<close>: the float product \<open>0.9 * target\<close> is exactly 8, the correction
    does not fire, and the result 8 is below nine tenths of the target;
  \<^item> target \<open>inf\<close>: \<open>int\<close> raises \<open>OverflowError\<close> and nothing is returned.
\<close>

theorem Depth_min_value_9_target_11:
  "Depth_call 8 (Some 9) None fresh (PInt 11) = Inr 17 \<and> \<not> 8 dvd (17::int) \<and> (17::int) \<noteq> 9
   \<and> Depth_call 8 (Some 0) None fresh (PInt 0) = Inr 0
   \<and> Depth_call 8 None None fresh (PFloat (Finite (2501999792983609 / 281474976710656))) = Inr 8
   \<and> (8::real) < 9 / 10 * (2501999792983609 / 281474976710656)
   \<and> Depth_call 8 None None fresh (PFloat PosInf) = Inl OverflowError"
proof -
  have P11: "float_mul literal_0_9 (Finite (of_int 11))
               = Finite (5573204538870989 / 562949953421312)"
    unfolding literal_0_9_value float_mul.simps
    by (rule double_round_eval [where e = 3]) (simp_all add: round_half_even_def)
  have 1: "Depth_call 8 (Some 9) None fresh (PInt 11) = Inr 17"
    using Depth_8_small_int(1) [OF _ _ P11, of 9]
    by (simp add: Depth_call_cells int_lt_float_def)
  have P0: "float_mul literal_0_9 (Finite (of_int 0)) = Finite 0"
    by (simp add: literal_0_9_value double_round_def)
  have 2: "Depth_call 8 (Some 0) None fresh (PInt 0) = Inr 0"
    using Depth_8_small_int(1) [OF _ _ P0, of 0]
    by (simp add: Depth_call_cells int_lt_float_def)
  let ?q = "2501999792983609 / 281474976710656 :: real"
  have a: "as_float (PFloat (Finite ?q)) = Inr (Finite ?q)" by (simp add: as_float_def)
  have h: "double_round (of_int 8 / 2) = Finite 4"
    using double_round_int [of 4] by simp
  have S: "double_round (?q + 4) = Finite (?q + 4)"
    by (rule double_round_exact [of _ 7255799399652466 "- 49"]) simp_all
  have P: "float_mul literal_0_9 (Finite ?q) = Finite 8"
    unfolding literal_0_9_value float_mul.simps
    by (rule double_round_eval [where e = 3]) (simp_all add: round_half_even_def)
  have 3: "Depth_call 8 None None fresh (PFloat (Finite ?q)) = Inr 8"
    using Depth_apply_eval [OF a _ h S P, of 8]
    by (simp add: Depth_call_cells int_lt_float_def trunc_def)
  have 4: "Depth_call 8 None None fresh (PFloat PosInf) = Inl OverflowError"
    by (simp add: Depth_call_cells Depth_apply_def Depth_candidate_def int_truediv_def
                  num_add_float_def as_float_def bindE_def py_int_def double_round_numeral)
  from 1 2 3 4 show ?thesis by simp
qed

text \<open>
  Claim C5, amended: for every target with \<open>0 \<le> target \<le> 2 ^ 1022\<close>, an int or a finite
  float, \<open>round_channels(target, divisor=8)\<close> returns an integer \<open>r \<ge> 0\<close> with
  \<open>r \<ge> 0.9 * target\<close>, the product taken in double arithmetic as line 136 takes it.
  With the default \<open>min_value\<close>, \<open>r\<close> is a positive multiple of 8. With a supplied
  \<open>min_value = m\<close>, \<open>r \<ge> m\<close> (so \<open>r\<close> is positive when \<open>m\<close> is) and \<open>r\<close> is a multiple of 8,
  or \<open>m\<close>, or \<open>m + 8\<close> (the correction step also applies to a candidate that is
  \<open>min_value\<close>).
\<close>

theorem Depth_8_result_bounds:
  assumes "num_value target = Some v" "0 \<le> v" "v \<le> 2 ^ 1022"
  shows "\<exists>r t. Depth_call 8 min_value name s target = Inr r
           \<and> float_mul_num literal_0_9 target = Inr (Finite t) \<and> t \<le> of_int r
           \<and> 0 \<le> r
           \<and> (min_value = None \<longrightarrow> 0 < r \<and> 8 dvd r)
           \<and> (\<forall>m. min_value = Some m \<longrightarrow> m \<le> r \<and> (8 dvd r \<or> r = m \<or> r = m + 8))"
proof (cases min_value)
  case None
  obtain r t where r: "Depth_apply \<lparr>cell_divisor = 8, cell_min_value = 8\<rparr> target = Inr r"
      "float_mul_num literal_0_9 target = Inr (Finite t)" "t \<le> of_int r"
      "0 \<le> r" "8 \<le> r" "8 dvd r \<or> r = 8 \<or> r = 8 + 8"
    using Depth_8_bounds [OF assms, of 8] by blast
  have "8 dvd r" using r(6) by auto
  then show ?thesis using r None by (simp add: Depth_call_cells)
next
  case (Some m)
  obtain r t where r: "Depth_apply \<lparr>cell_divisor = 8, cell_min_value = m\<rparr> target = Inr r"
      "float_mul_num literal_0_9 target = Inr (Finite t)" "t \<le> of_int r"
      "0 \<le> r" "m \<le> r" "8 dvd r \<or> r = m \<or> r = m + 8"
    using Depth_8_bounds [OF assms, of m] by blast
  then show ?thesis using Some by (simp add: Depth_call_cells)
qed

text \<open>
  The theorem at target 30 with the default \<open>min_value\<close> and at target 11 with
  \<open>min_value = 9\<close>.
\<close>

theorem Depth_8_result_bounds_witness:
  "num_value (PInt 30) = Some 30 \<and> (0::real) \<le> 30 \<and> (30::real) \<le> 2 ^ 1022
   \<and> (\<exists>r t. Depth_call 8 None None fresh (PInt 30) = Inr r
          \<and> float_mul_num literal_0_9 (PInt 30) = Inr (Finite t) \<and> t \<le> of_int r
          \<and> 0 < r \<and> 8 dvd r)
   \<and> num_value (PInt 11) = Some 11 \<and> (0::real) \<le> 11 \<and> (11::real) \<le> 2 ^ 1022
   \<and> (\<exists>r t. Depth_call 8 (Some 9) None fresh (PInt 11) = Inr r
          \<and> float_mul_num literal_0_9 (PInt 11) = Inr (Finite t) \<and> t \<le> of_int r
          \<and> 9 \<le> r \<and> (8 dvd r \<or> r = 9 \<or> r = 17))"
  using Depth_8_result_bounds [of "PInt 30" 30 None None fresh]
        Depth_8_result_bounds [of "PInt 11" 11 "Some 9" None fresh]
  by auto

text \<open>
  Claim C6, as stated: for every positive target, divisor and \<open>min_value\<close> the result is
  the spec's rule in exact arithmetic. For the int target 9007199254740995 (above
  \<open>2 ^ 53\<close>) the conversion to a float rounds it to 9007199254740996, the sum with 4.0 is
  9007199254741000, and that is the result; the exact rule gives 9007199254740992.
\<close>

theorem Depth_differs_from_exact_rule:
  "Depth_call 8 None None fresh (PInt 9007199254740995) = Inr 9007199254741000
   \<and> round_channels_spec 9007199254740995 8 None = 9007199254740992"
proof -
  have c: "double_round 9007199254740995 = Finite 9007199254740996"
    by (rule double_round_eval [where e = 53]) (simp_all add: round_half_even_def)
  have a: "as_float (PInt 9007199254740995) = Inr (Finite 9007199254740996)"
    by (simp add: as_float_def float_of_int_def c)
  have h: "double_round (of_int 8 / 2) = Finite 4"
    using double_round_int [of 4] by simp
  have "double_round 9007199254741000 = Finite 9007199254741000"
    by (rule double_round_exact [of _ 1125899906842625 3]) simp_all
  then have S: "double_round (9007199254740996 + 4) = Finite 9007199254741000" by simp
  have P: "float_mul literal_0_9 (Finite 9007199254740996) = Finite 8106479329266897"
    unfolding literal_0_9_value float_mul.simps
    by (rule double_round_eval [where e = 52]) (simp_all add: round_half_even_def)
  have 1: "Depth_call 8 None None fresh (PInt 9007199254740995) = Inr 9007199254741000"
    using Depth_apply_eval [OF a _ h S P, of 8]
    by (simp add: Depth_call_cells int_lt_float_def trunc_def)
  have 2: "round_channels_spec 9007199254740995 8 None = 9007199254740992"
    by (simp add: round_channels_spec_def)
  from 1 2 show ?thesis by simp
qed

text \<open>
  Claim C6, amended: for every positive target (an int or a finite float) and positive
  divisor, both up to \<open>2 ^ 1022\<close>, and positive \<open>min_value\<close> (defaulting to the divisor),
  \<open>Depth(divisor, min_value)(target)\<close> returns the spec's rule computed on the float sum
  \<open>S = target + divisor / 2\<close> and the float product \<open>P = 0.9 * target\<close>, both finite
  doubles: \<open>candidate = max(min_value, floor(S / divisor) * divisor)\<close>, plus one divisor when
  \<open>candidate < P\<close>. \<open>round_channels(0, 8)\<close> returns \<open>min_value\<close>, which is not zero.
\<close>

theorem Depth_refines_round_channels_spec:
  assumes "num_value target = Some v" "0 < v" "v \<le> 2 ^ 1022"
    and "0 < divisor" "of_int divisor \<le> (2::real) ^ 1022"
    and "\<forall>m. min_value = Some m \<longrightarrow> 0 < m"
  shows "\<exists>S P. bindE (int_truediv divisor 2) (num_add_float target) = Inr (Finite S)
           \<and> float_mul_num literal_0_9 target = Inr P
           \<and> Depth_call divisor min_value name s target
               = Inr (round_channels_rounded S P divisor min_value)
           \<and> Depth_call 8 min_value name s (PInt 0)
               = Inr (case min_value of None \<Rightarrow> 8 | Some m \<Rightarrow> m)
           \<and> (case min_value of None \<Rightarrow> 8 | Some m \<Rightarrow> m) \<noteq> 0"
proof -
  have pos: "0 < (case min_value of None \<Rightarrow> 8 | Some m \<Rightarrow> m)"
    using assms(6) by (cases min_value) simp_all
  have v: "0 \<le> v" using assms(2) by simp
  obtain S P where r: "bindE (int_truediv divisor 2) (num_add_float target) = Inr (Finite S)"
      "float_mul_num literal_0_9 target = Inr P"
      "Depth_call divisor min_value name s target
         = Inr (round_channels_rounded S P divisor min_value)"
    using Depth_call_rounded [OF assms(1) v assms(3,4,5), of min_value name s] by blast
  have z: "Depth_call 8 min_value name s (PInt 0)
             = Inr (case min_value of None \<Rightarrow> 8 | Some m \<Rightarrow> m)"
    using pos by (rule Depth_8_zero)
  have nz: "(case min_value of None \<Rightarrow> 8 | Some m \<Rightarrow> m) \<noteq> 0" using pos by simp
  show ?thesis
    by (intro exI [of _ S] exI [of _ P] conjI r z nz)
qed

text \<open>
  The theorem at target 10, divisor 8, \<open>min_value = 8\<close>: the sum is 14.0, the candidate 8
  is below the product 9.0, and the result is 16; at target 0 the result is 8.
\<close>

theorem Depth_refines_round_channels_spec_witness:
  "num_value (PInt 10) = Some 10 \<and> (0::real) < 10 \<and> (10::real) \<le> 2 ^ 1022
   \<and> (0::int) < 8 \<and> real_of_int 8 \<le> 2 ^ 1022
   \<and> (\<exists>S P. bindE (int_truediv 8 2) (num_add_float (PInt 10)) = Inr (Finite S)
          \<and> float_mul_num literal_0_9 (PInt 10) = Inr P
          \<and> Depth_call 8 (Some 8) None fresh (PInt 10)
              = Inr (round_channels_rounded S P 8 (Some 8)))
   \<and> Depth_call 8 (Some 8) None fresh (PInt 10) = Inr 16
   \<and> Depth_call 8 (Some 8) None fresh (PInt 0) = Inr 8"
proof -
  have P: "float_mul literal_0_9 (Finite (of_int 10)) = Finite 9"
    unfolding literal_0_9_value float_mul.simps
    by (rule double_round_eval [where e = 3]) (simp_all add: round_half_even_def)
  have 1: "Depth_call 8 (Some 8) None fresh (PInt 10) = Inr 16"
    using Depth_8_small_int(1) [OF _ _ P, of 8]
    by (simp add: Depth_call_cells int_lt_float_def)
  show ?thesis
    using Depth_refines_round_channels_spec [of "PInt 10" 10 8 "Some 8" None fresh] 1
    by auto
qed

section \<open>The claims about CorrectPad\<close>

text \<open>
  Claim C7 says that the padding function returns
  \<open>((total0 - adjust0, total0), (total1 - adjust1, total1))\<close>, in particular
  \<open>((0, 1), (0, 1))\<close> for kernel size 3 on an even or unknown dimension. The source assigns
  \<open>kernel_size\<close> inside \<open>apply\<close> (line 98), which makes it a local of \<open>apply\<close>; line 97 reads
  it before any assignment. For every kernel size, name, backend and tensor the call
  raises \<open>UnboundLocalError\<close> and returns no padding.
\<close>

theorem CorrectPad_apply_raises:
  "CorrectPad_call B kernel_size name s x = Inl UnboundLocalError"
  by (simp add: CorrectPad_call_def fst_CorrectPad bindE_def CorrectPad_apply_unbound)

text \<open>
  Claim C10: for \<open>Depth\<close> and \<open>CorrectPad\<close> the \<open>name\<close> argument, supplied (\<open>Some n\<close>) or
  generated from the uid counter (\<open>None\<close>), is never consulted by the returned function:
  for any two names, in any two backend states, the two returned functions give equal
  results on every input.
\<close>

theorem apply_ignores_name:
  "Depth_call divisor min_value n1 s1 x = Depth_call divisor min_value n2 s2 x
   \<and> CorrectPad_call B kernel_size n1 s1 t = CorrectPad_call B kernel_size n2 s2 t"
  by (simp add: Depth_call_cells CorrectPad_call_def fst_CorrectPad)

section \<open>The claims about InvertedResBlock\<close>

text \<open>
  Claim C1 says that the block returns \<open>input + projected_output\<close> exactly when the input
  channel count equals the projected channel count and \<open>stride == 1\<close>. In the source
  \<open>pointwise_filters\<close> is the function object returned by \<open>Depth(pointwise_conv_filters, 8)\<close>,
  and an integer never equals a function object: for every block and every input,
  \<open>apply\<close> returns the projected output and \<open>add\<close> is not called. So it is for
  \<open>InvertedResBlock(1, 1, 1.0, 16, 0)\<close> on a feature map with 16 channels, where the
  projected channel count of the claim, \<open>round_channels(16, 8) = 16\<close>, equals the input's.
\<close>

theorem InvertedResBlock_residual_never_added:
  "InvertedResBlock_apply B f inputs
     = bind (InvertedResBlock_project B f inputs) (\<lambda>(in_channels, x). ret x)
   \<and> Depth_call 8 None None fresh (PInt 16) = Inr 16
   \<and> fst (InvertedResBlock_call recording 1 1 (PFloat (Finite 1)) 16 0 None
             (Feature [None, Some 56, Some 56, Some 16]) fresh) =
     Inr (Out (BatchNormalization (- 1) (1 / 1000) (999 / 1000) ''block_0_project_BN'')
       [Out (Conv2D (FunV \<lparr>cell_divisor = 16, cell_min_value = 8\<rparr>) 1 Same False None
               ''block_0_project'')
         [Out (ReLU 6 ''block_0_depthwise_relu'')
           [Out (BatchNormalization (- 1) (1 / 1000) (999 / 1000) ''block_0_depthwise_BN'')
             [Out (DepthwiseConv2D 3 1 None False Same ''block_0_depthwise'')
               [Feature [None, Some 56, Some 56, Some 16]]]]]])"
proof (intro conjI)
  show "InvertedResBlock_apply B f inputs
     = bind (InvertedResBlock_project B f inputs) (\<lambda>(in_channels, x). ret x)"
    by (rule InvertedResBlock_apply_no_add)
  have P: "float_mul literal_0_9 (Finite (of_int 16))
              = Finite (8106479329266893 / 562949953421312)"
    unfolding literal_0_9_value float_mul.simps
    by (rule double_round_eval [where e = 3]) (simp_all add: round_half_even_def)
  show "Depth_call 8 None None fresh (PInt 16) = Inr 16"
    using Depth_8_small_int(1) [OF _ _ P, of 8]
    by (simp add: Depth_call_cells int_lt_float_def)
  show "fst (InvertedResBlock_call recording 1 1 (PFloat (Finite 1)) 16 0 None
             (Feature [None, Some 56, Some 56, Some 16]) fresh) =
     Inr (Out (BatchNormalization (- 1) (1 / 1000) (999 / 1000) ''block_0_project_BN'')
       [Out (Conv2D (FunV \<lparr>cell_divisor = 16, cell_min_value = 8\<rparr>) 1 Same False None
               ''block_0_project'')
         [Out (ReLU 6 ''block_0_depthwise_relu'')
           [Out (BatchNormalization (- 1) (1 / 1000) (999 / 1000) ''block_0_depthwise_BN'')
             [Out (DepthwiseConv2D 3 1 None False Same ''block_0_depthwise'')
               [Feature [None, Some 56, Some 56, Some 16]]]]]])"
    unfolding InvertedResBlock_call_def InvertedResBlock_def line_148_at_16 by code_simp
qed

text \<open>
  Claim C2 says that the projection convolution has
  \<open>round_channels(filters * alpha, divisor=8)\<close> output channels. Line 151 calls
  \<open>Depth(pointwise_conv_filters, 8)\<close>, which binds \<open>divisor = int(filters * alpha)\<close> and
  \<open>min_value = 8\<close> and returns a function that is never called. For
  \<open>InvertedResBlock(6, 1, 1.0, 16, 1)\<close> the \<open>filters\<close> argument of the projection convolution
  is that function object, not the integer 16; the rest (kernel size 1, no bias, no
  activation) is as the claim says.
\<close>

theorem InvertedResBlock_project_filters_is_function:
  "map_sum id cell_conv2d_1
     (fst (InvertedResBlock recording 6 1 (PFloat (Finite 1)) 16 1 None fresh)) =
     Inr (Conv2D (FunV \<lparr>cell_divisor = 16, cell_min_value = 8\<rparr>) 1 Same False None
            ''block_1_project'')"
  unfolding InvertedResBlock_def line_148_at_16 by code_simp

text \<open>
  Claim C3 says that for \<open>block_id \<noteq> 0\<close> applying the block first performs the expansion
  step. Line 210 assigns \<open>prefix\<close> inside \<open>apply\<close>, which makes \<open>prefix\<close> a local of
  \<open>apply\<close>; with \<open>block_id \<noteq> 0\<close> line 205 reads it before any assignment. For
  \<open>InvertedResBlock(6, 1, 1.0, 16, 1)\<close> on a feature map with 16 channels the application
  raises \<open>UnboundLocalError\<close>: no expansion is performed.
\<close>

theorem InvertedResBlock_expand_raises:
  "fst (InvertedResBlock_call recording 6 1 (PFloat (Finite 1)) 16 1 None
          (Feature [None, Some 56, Some 56, Some 16]) fresh)
     = Inl UnboundLocalError"
  unfolding InvertedResBlock_call_def InvertedResBlock_def line_148_at_16 by code_simp

text \<open>
  Claim C8, as stated: for every configuration the builder raises no error of its own,
  and any failure comes from the backend's layer constructors. With \<open>alpha = inf\<close> (and
  filters 16, on the backend that accepts every layer) \<open>int(filters * alpha)\<close> at line 148
  raises \<open>OverflowError\<close>; no layer has been constructed.
\<close>

theorem InvertedResBlock_alpha_inf_raises:
  "fst (InvertedResBlock recording 6 1 (PFloat PosInf) 16 1 None fresh) = Inl OverflowError
   \<and> allocated (snd (InvertedResBlock recording 6 1 (PFloat PosInf) 16 1 None fresh)) = []"
  unfolding InvertedResBlock_def line_148_at_inf by code_simp

text \<open>
  Claim C8, amended: for every configuration, valid or not (stride not in {1, 2},
  \<open>alpha \<le> 0\<close>, \<open>filters \<le> 0\<close>, \<open>expansion \<le> 0\<close>), an exception of the block builder at
  construction time is either an error that a layer constructor of the backend returned,
  or the \<open>OverflowError\<close> or \<open>ValueError\<close> that \<open>int(filters * alpha)\<close> at line 148 raises
  (when the product is an infinity or a NaN, or \<open>filters\<close> is too large for a float).
  The builder makes no other check.
\<close>

theorem InvertedResBlock_errors_from_backend_or_line_148:
  assumes "fst (InvertedResBlock B expansion stride alpha filters block_id name s) = Inl err"
  shows "(\<exists>l msg. construct B l = Some msg \<and> err = BackendError msg)
       \<or> (bindE (int_mul_num filters alpha) py_int = Inl err
            \<and> (err = OverflowError \<or> err = ValueError))"
proof -
  obtain s' where
    "InvertedResBlock B expansion stride alpha filters block_id name s = (Inl err, s')"
    using assms
    by (cases "InvertedResBlock B expansion stride alpha filters block_id name s") simp
  then have "backend_error B err \<or> bindE (int_mul_num filters alpha) py_int = Inl err"
    using ro_InvertedResBlock [of B filters alpha expansion stride block_id name]
    unfolding raises_only_def by blast
  then show ?thesis using line_148_errors [of filters alpha err]
    by (auto simp: backend_error_def)
qed

text \<open>
  The theorem at \<open>expansion = 0\<close>, \<open>stride = 3\<close>, \<open>alpha = -1.0\<close>, \<open>filters = -5\<close> on the
  backend that rejects a depthwise convolution with a stride other than 1 or 2: line 148
  evaluates to 5 and the error is the backend's.
\<close>

theorem InvertedResBlock_errors_from_backend_or_line_148_witness:
  "fst (InvertedResBlock strict 0 3 (PFloat (Finite (- 1))) (- 5) 0 None fresh)
     = Inl (BackendError ''invalid strides'')
   \<and> bindE (int_mul_num (- 5) (PFloat (Finite (- 1)))) py_int = Inr 5
   \<and> (\<exists>l msg. construct strict l = Some msg
                \<and> BackendError ''invalid strides'' = BackendError msg)"
proof -
  have h: "fst (InvertedResBlock strict 0 3 (PFloat (Finite (- 1))) (- 5) 0 None fresh)
             = Inl (BackendError ''invalid strides'')"
    unfolding InvertedResBlock_def line_148_at_minus_5 by code_simp
  show ?thesis
    using h InvertedResBlock_errors_from_backend_or_line_148 [OF h] line_148_at_minus_5
    by simp
qed

text \<open>
  Claim C9 says that the expansion convolution is allocated anew inside every application
  when \<open>block_id \<noteq> 0\<close>, under the name \<open>prefix + "expand"\<close>, and every other sublayer once
  per call of \<open>InvertedResBlock\<close>. For \<open>InvertedResBlock(6, 1, 1.0, 16, 1)\<close> the builder
  allocates eight layers, once each. Applying the block raises \<open>UnboundLocalError\<close> while
  the arguments of the expansion convolution are evaluated, before the constructor is
  called: the layers allocated after the application are the eight of the builder, and
  none is named \<open>block_1_expand\<close>.
\<close>

theorem InvertedResBlock_allocations:
  "map layer_name
     (allocated (snd (InvertedResBlock recording 6 1 (PFloat (Finite 1)) 16 1 None fresh))) =
     [''block_1_expand_BN'', ''block_1_expand_relu'', ''block_1_depthwise'',
      ''block_1_depthwise_BN'', ''block_1_depthwise_relu'', ''block_1_project'',
      ''block_1_project_BN'', ''block_1_add'']
   \<and> fst (InvertedResBlock_call recording 6 1 (PFloat (Finite 1)) 16 1 None
            (Feature [None, Some 56, Some 56, Some 16]) fresh)
       = Inl UnboundLocalError
   \<and> allocated (snd (InvertedResBlock_call recording 6 1 (PFloat (Finite 1)) 16 1 None
                        (Feature [None, Some 56, Some 56, Some 16]) fresh))
       = allocated (snd (InvertedResBlock recording 6 1 (PFloat (Finite 1)) 16 1 None fresh))"
  unfolding InvertedResBlock_call_def InvertedResBlock_def line_148_at_16 by code_simp

end
